theory Spec2Isabelle
  imports Complex_Main
begin

section \<open>Python strings\<close>

text \<open>
  A Python \<^verbatim>\<open>str\<close> is modelled as a \<^typ>\<open>string\<close> whose characters are read as
  the code points U+0000 .. U+00FF, one \<^typ>\<open>char\<close> per code point, so that
  \<^verbatim>\<open>len\<close> is \<^const>\<open>length\<close>. The character classes below are those of CPython
  on that range.
\<close>

definition code_point :: "char \<Rightarrow> nat" where
  "code_point c = of_char c"

text \<open>\<^verbatim>\<open>str.isspace\<close> on one character: the separators of \<^verbatim>\<open>split()\<close> and
  the characters \<^verbatim>\<open>strip()\<close> removes.\<close>

definition isspace :: "char \<Rightarrow> bool" where
  "isspace c = (let n = code_point c in
     (9 \<le> n \<and> n \<le> 13) \<or> (28 \<le> n \<and> n \<le> 32) \<or> n = 133 \<or> n = 160)"

definition is_lower_char :: "char \<Rightarrow> bool" where
  "is_lower_char c = (let n = code_point c in
     (97 \<le> n \<and> n \<le> 122) \<or> n = 170 \<or> n = 181 \<or> n = 186 \<or>
     (223 \<le> n \<and> n \<le> 246) \<or> (248 \<le> n \<and> n \<le> 255))"

definition is_upper_char :: "char \<Rightarrow> bool" where
  "is_upper_char c = (let n = code_point c in
     (65 \<le> n \<and> n \<le> 90) \<or> (192 \<le> n \<and> n \<le> 214) \<or> (216 \<le> n \<and> n \<le> 222))"

text \<open>\<^verbatim>\<open>str.isupper\<close>: no cased character is lower-case and there is at least one
  upper-case character.\<close>

definition isupper :: "string \<Rightarrow> bool" where
  "isupper s = (\<not> list_ex is_lower_char s \<and> list_ex is_upper_char s)"

definition lower_char :: "char \<Rightarrow> char" where
  "lower_char c = (if is_upper_char c then char_of (code_point c + 32) else c)"

definition lower :: "string \<Rightarrow> string" where
  "lower s = map lower_char s"

definition strip :: "string \<Rightarrow> string" where
  "strip s = rev (dropWhile isspace (rev (dropWhile isspace s)))"

text \<open>\<^verbatim>\<open>str.split()\<close> with no argument: the maximal runs of non-whitespace
  characters; \<open>cur\<close> is the current run, reversed.\<close>

fun split_from :: "string \<Rightarrow> string \<Rightarrow> string list" where
  "split_from cur [] = (if cur = [] then [] else [rev cur])"
| "split_from cur (c # cs) =
     (if isspace c then (if cur = [] then split_from [] cs else rev cur # split_from [] cs)
      else split_from (c # cur) cs)"

definition split :: "string \<Rightarrow> string list" where
  "split s = split_from [] s"

text \<open>\<^verbatim>\<open>sep.join(parts)\<close>.\<close>

fun join :: "string \<Rightarrow> string list \<Rightarrow> string" where
  "join sep [] = []"
| "join sep [x] = x"
| "join sep (x # y # ys) = x @ sep @ join sep (y # ys)"

text \<open>\<^verbatim>\<open>pat in s\<close> on strings: \<open>pat\<close> occurs in \<open>s\<close> as a contiguous run.\<close>

fun starts_with :: "string \<Rightarrow> string \<Rightarrow> bool" where
  "starts_with [] s = True"
| "starts_with (p # ps) [] = False"
| "starts_with (p # ps) (c # cs) = (p = c \<and> starts_with ps cs)"

fun contains :: "string \<Rightarrow> string \<Rightarrow> bool" where
  "contains pat [] = (pat = [])"
| "contains pat (c # cs) = (starts_with pat (c # cs) \<or> contains pat cs)"

text \<open>\<^verbatim>\<open>str.splitlines()\<close>: the line boundaries below U+0100 are LF, VT, FF, CR, FS,
  GS, RS and NEL, and CR LF counts as one boundary; a final line with no characters is
  not produced.\<close>

definition is_linebreak :: "char \<Rightarrow> bool" where
  "is_linebreak c = (let n = code_point c in
     (10 \<le> n \<and> n \<le> 13) \<or> (28 \<le> n \<and> n \<le> 30) \<or> n = 133)"

fun splitlines_from :: "string \<Rightarrow> string \<Rightarrow> string list" where
  "splitlines_from cur [] = (if cur = [] then [] else [rev cur])"
| "splitlines_from cur [c] =
     (if is_linebreak c then [rev cur] else [rev (c # cur)])"
| "splitlines_from cur (c # d # cs) =
     (if code_point c = 13 \<and> code_point d = 10 then rev cur # splitlines_from [] cs
      else if is_linebreak c then rev cur # splitlines_from [] (d # cs)
      else splitlines_from (c # cur) (d # cs))"

definition splitlines :: "string \<Rightarrow> string list" where
  "splitlines s = splitlines_from [] s"

section \<open>Values, tables and exceptions\<close>

text \<open>
  A numeric cell is a float: a finite value (an exact rational here; the rounding error
  of IEEE arithmetic is outside the model), an infinity or NaN. A cell is a string, a
  number or the missing-value marker \<^verbatim>\<open>pd.NA\<close>.
\<close>

datatype number = Finite rat | PosInf | NegInf | NaN

datatype cell = Str string | Num number | NA

text \<open>A column label is a \<^verbatim>\<open>str\<close>, or another object (an integer position, say),
  kept as the text \<^verbatim>\<open>str()\<close> gives for it. The columns of a table are a flat index
  of labels or a \<^verbatim>\<open>MultiIndex\<close> of tuples of labels.\<close>

datatype label = LStr string | LObj string

datatype header = Flat "label list" | Multi "label list list"

text \<open>A \<^verbatim>\<open>DataFrame\<close>: its columns and its rows, each row holding one cell per
  column in the order of the columns.\<close>

record frame =
  columns :: header
  rows :: "cell list list"

datatype exn_kind =
  ValueError | AttributeError | IndexError | TypeError | RuntimeError | HTTPError | OtherError

text \<open>An exception: its class and the text \<^verbatim>\<open>str(e)\<close> gives.\<close>

datatype exn = Exn exn_kind string

fun exn_str :: "exn \<Rightarrow> string" where
  "exn_str (Exn k msg) = msg"

text \<open>
  The library functions the program calls and whose code is not part of it, taken as
  parameters: how Python prints a finite float, which strings \<^verbatim>\<open>pd.to_numeric\<close>
  reads as numbers, the two pandas readers, and the four functions of
  \<^verbatim>\<open>urllib.parse\<close>.
\<close>

record url_parts =
  scheme :: string
  netloc :: string
  path :: string
  params :: string
  query :: string
  fragment :: string

record lib =
  str_of_float :: "rat \<Rightarrow> string"
  float_of_str :: "string \<Rightarrow> number option"
  read_csv :: "string \<Rightarrow> exn + frame"
  read_html :: "string \<Rightarrow> exn + frame list"
  urlparse :: "string \<Rightarrow> exn + url_parts"
  parse_qsl :: "string \<Rightarrow> (string \<times> string) list"
  urlencode :: "(string \<times> string) list \<Rightarrow> string"
  urlunparse :: "url_parts \<Rightarrow> string"

text \<open>\<^verbatim>\<open>str(x)\<close> of a cell, which is also what \<^verbatim>\<open>astype(str)\<close> makes of it
  (pandas 2: a missing value becomes its printed form).\<close>

fun py_str :: "lib \<Rightarrow> cell \<Rightarrow> string" where
  "py_str L (Str s) = s"
| "py_str L (Num (Finite x)) = str_of_float L x"
| "py_str L (Num PosInf) = ''inf''"
| "py_str L (Num NegInf) = ''-inf''"
| "py_str L (Num NaN) = ''nan''"
| "py_str L NA = ''<NA>''"

text \<open>\<^verbatim>\<open>pd.to_numeric(..., errors="coerce")\<close> on one cell.\<close>

fun to_numeric :: "lib \<Rightarrow> cell \<Rightarrow> number" where
  "to_numeric L (Num n) = n"
| "to_numeric L (Str s) = (case float_of_str L s of Some n \<Rightarrow> n | None \<Rightarrow> NaN)"
| "to_numeric L NA = NaN"

text \<open>Applying a fallible function to every element in order: the first exception
  ends the comprehension.\<close>

fun map_result :: "('a \<Rightarrow> exn + 'b) \<Rightarrow> 'a list \<Rightarrow> exn + 'b list" where
  "map_result f [] = Inr []"
| "map_result f (x # xs) =
     (case f x of
        Inl e \<Rightarrow> Inl e
      | Inr y \<Rightarrow> (case map_result f xs of Inl e \<Rightarrow> Inl e | Inr ys \<Rightarrow> Inr (y # ys)))"

subsection \<open>Column access\<close>

text \<open>The labels of a flat index. Every use below follows \<open>clean_columns\<close>, which
  leaves a flat index of strings; a \<^verbatim>\<open>MultiIndex\<close> is never looked up by name.\<close>

fun flat_labels :: "header \<Rightarrow> label list" where
  "flat_labels (Flat ls) = ls"
| "flat_labels (Multi cs) = []"

definition has_column :: "frame \<Rightarrow> string \<Rightarrow> bool" where
  "has_column df c = (LStr c \<in> set (flat_labels (columns df)))"

fun index_of :: "'a \<Rightarrow> 'a list \<Rightarrow> nat" where
  "index_of x [] = 0"
| "index_of x (y # ys) = (if x = y then 0 else Suc (index_of x ys))"

definition column_index :: "frame \<Rightarrow> string \<Rightarrow> nat" where
  "column_index df c = index_of (LStr c) (flat_labels (columns df))"

text \<open>The cell of a row at a position; a row shorter than the columns reads as NaN
  there, as pandas pads it.\<close>

definition cell_at :: "cell list \<Rightarrow> nat \<Rightarrow> cell" where
  "cell_at r i = (if i < length r then r ! i else Num NaN)"

text \<open>\<^verbatim>\<open>df[c]\<close> for a column that exists: its cells, one per row.\<close>

definition getitem :: "frame \<Rightarrow> string \<Rightarrow> cell list" where
  "getitem df c = map (\<lambda>r. cell_at r (column_index df c)) (rows df)"

text \<open>\<^verbatim>\<open>df[c] = vs\<close> with one value per row: an existing column is overwritten in
  place, a new one is appended as the last column.\<close>

definition setitem :: "frame \<Rightarrow> string \<Rightarrow> cell list \<Rightarrow> frame" where
  "setitem df c vs =
     (if has_column df c
      then df\<lparr>rows := map2 (\<lambda>r v. r[column_index df c := v]) (rows df) vs\<rparr>
      else df\<lparr>columns := Flat (flat_labels (columns df) @ [LStr c]),
              rows := map2 (\<lambda>r v. r @ [v]) (rows df) vs\<rparr>)"

text \<open>\<^verbatim>\<open>df[[c1, ..., cn]]\<close>: a new table of the named columns in the given order.\<close>

definition select_columns :: "frame \<Rightarrow> string list \<Rightarrow> frame" where
  "select_columns df cs =
     \<lparr>columns = Flat (map LStr cs),
      rows = map (\<lambda>r. map (\<lambda>c. cell_at r (column_index df c)) cs) (rows df)\<rparr>"

text \<open>\<^verbatim>\<open>df.rename(columns={old: new})\<close>.\<close>

definition rename_column :: "frame \<Rightarrow> string \<Rightarrow> string \<Rightarrow> frame" where
  "rename_column df old new =
     df\<lparr>columns := Flat (map (\<lambda>l. if l = LStr old then LStr new else l)
                            (flat_labels (columns df)))\<rparr>"

text \<open>\<^verbatim>\<open>df[mask]\<close> with a boolean mask, one entry per row.\<close>

definition filter_rows :: "frame \<Rightarrow> bool list \<Rightarrow> frame" where
  "filter_rows df keep = df\<lparr>rows := map fst (filter snd (zip (rows df) keep))\<rparr>"

text \<open>\<^verbatim>\<open>df.empty\<close>: no column or no row.\<close>

fun header_size :: "header \<Rightarrow> nat" where
  "header_size (Flat ls) = length ls"
| "header_size (Multi cs) = length cs"

definition empty_frame :: "frame \<Rightarrow> bool" where
  "empty_frame df = (header_size (columns df) = 0 \<or> rows df = [])"

section \<open>The program\<close>

subsection \<open>\<open>add_or_update_query\<close>\<close>

text \<open>A \<^verbatim>\<open>dict\<close> with string keys: its items in insertion order, keys distinct.
  \<open>dict_set\<close> is \<^verbatim>\<open>d[k] = v\<close>, \<open>dict_update\<close> is \<^verbatim>\<open>d.update(items)\<close> and
  \<open>dict_of\<close> is \<^verbatim>\<open>dict(pairs)\<close>.\<close>

fun dict_set :: "'k \<Rightarrow> 'v \<Rightarrow> ('k \<times> 'v) list \<Rightarrow> ('k \<times> 'v) list" where
  "dict_set k v [] = [(k, v)]"
| "dict_set k v ((k', v') # d) = (if k' = k then (k', v) # d else (k', v') # dict_set k v d)"

fun dict_update :: "('k \<times> 'v) list \<Rightarrow> ('k \<times> 'v) list \<Rightarrow> ('k \<times> 'v) list" where
  "dict_update d [] = d"
| "dict_update d ((k, v) # kvs) = dict_update (dict_set k v d) kvs"

definition dict_of :: "('k \<times> 'v) list \<Rightarrow> ('k \<times> 'v) list" where
  "dict_of pairs = dict_update [] pairs"

text \<open>The keyword arguments \<open>kwargs\<close> are a dict of strings. \<open>parse_qsl\<close> stands for the
  call with \<^verbatim>\<open>keep_blank_values=True\<close>, \<open>urlencode\<close> for the call with
  \<^verbatim>\<open>doseq=True\<close>.\<close>

definition add_or_update_query :: "lib \<Rightarrow> string \<Rightarrow> (string \<times> string) list \<Rightarrow> exn + string" where
  "add_or_update_query L url kwargs =
     (case urlparse L url of
        Inl e \<Rightarrow> Inl e
      | Inr parts \<Rightarrow>
          (let q = dict_of (parse_qsl L (query parts));
               q' = dict_update q kwargs;
               new_query = urlencode L q'
           in Inr (urlunparse L (parts\<lparr>query := new_query\<rparr>))))"

subsection \<open>The network and the clock\<close>

text \<open>
  The world outside the program: \<open>net w n url\<close> is what the \<open>n\<close>-th
  \<^verbatim>\<open>requests.get\<close> of the run gives when it asks for \<open>url\<close> (an exception or a
  response), \<open>requests w\<close> counts the requests made so far, and \<open>slept w\<close> lists the
  durations of the calls of \<^verbatim>\<open>time.sleep\<close> so far. The fixed headers and the
  timeout are part of what \<open>net\<close> answers.
\<close>

record response =
  status_code :: int
  body :: string
  status_error :: string

record world =
  net :: "nat \<Rightarrow> string \<Rightarrow> exn + response"
  requests :: nat
  slept :: "rat list"

definition requests_get :: "world \<Rightarrow> string \<Rightarrow> (exn + response) \<times> world" where
  "requests_get w url = (net w (requests w) url, w\<lparr>requests := Suc (requests w)\<rparr>)"

text \<open>\<^verbatim>\<open>resp.raise_for_status()\<close>: a status 4xx or 5xx raises, with the text the
  response carries for it.\<close>

definition raise_for_status :: "response \<Rightarrow> exn + unit" where
  "raise_for_status resp =
     (if 400 \<le> status_code resp \<and> status_code resp < 600
      then Inl (Exn HTTPError (status_error resp)) else Inr ())"

text \<open>\<^verbatim>\<open>time.sleep(d)\<close>: a negative duration raises \<^verbatim>\<open>ValueError\<close>.\<close>

definition sleep :: "rat \<Rightarrow> world \<Rightarrow> exn + world" where
  "sleep d w =
     (if d < 0 then Inl (Exn ValueError ''sleep length must be non-negative'')
      else Inr (w\<lparr>slept := slept w @ [d]\<rparr>))"

subsection \<open>\<open>try_fetch_csv\<close>\<close>

text \<open>What \<open>try_fetch_csv\<close> does with the response it received (lines 57 to 69).\<close>

definition csv_of_response :: "lib \<Rightarrow> response \<Rightarrow> exn + frame option" where
  "csv_of_response L resp =
     (if status_code resp \<noteq> 200 then Inr None
      else
        (let txt = strip (body resp) in
           (case splitlines txt of
              [] \<Rightarrow> Inl (Exn IndexError ''list index out of range'')
            | first_line # _ \<Rightarrow>
                (if \<not> contains ''Player'' first_line then Inr None
                 else (case read_csv L txt of Inl e \<Rightarrow> Inr None | Inr df \<Rightarrow> Inr (Some df))))))"

definition try_fetch_csv :: "lib \<Rightarrow> string \<Rightarrow> world \<Rightarrow> (exn + frame option) \<times> world" where
  "try_fetch_csv L url w =
     (case add_or_update_query L url [(''csv'', ''1'')] of
        Inl e \<Rightarrow> (Inl e, w)
      | Inr csv_url \<Rightarrow>
          (case requests_get w csv_url of
             (Inl e, w1) \<Rightarrow> (Inl e, w1)
           | (Inr resp, w1) \<Rightarrow> (csv_of_response L resp, w1)))"

subsection \<open>\<open>clean_columns\<close>\<close>

fun label_str :: "label \<Rightarrow> string" where
  "label_str (LStr s) = s"
| "label_str (LObj s) = s"

text \<open>Line 76, for one tuple of a \<^verbatim>\<open>MultiIndex\<close>: the text of its last level,
  stripped.\<close>

definition last_level :: "label list \<Rightarrow> exn + label" where
  "last_level col =
     (if col = [] then Inl (Exn IndexError ''tuple index out of range'')
      else Inr (LStr (strip (label_str (last col)))))"

text \<open>Line 77, for one label: only a \<^verbatim>\<open>str\<close> has \<^verbatim>\<open>strip\<close>. (The text of the
  \<^verbatim>\<open>AttributeError\<close> names the type of the object; it is shortened here.)\<close>

fun strip_lower :: "label \<Rightarrow> exn + label" where
  "strip_lower (LStr s) = Inr (LStr (lower (strip s)))"
| "strip_lower (LObj s) = Inl (Exn AttributeError ''object has no attribute strip'')"

text \<open>\<open>clean_columns\<close> assigns to \<^verbatim>\<open>df.columns\<close> and returns \<^verbatim>\<open>df\<close> itself: the
  table it returns is the new state of the table it was given. When it raises, the
  table is as it was (no assignment was reached, or on line 77 every label is already a
  string).\<close>

definition clean_columns :: "frame \<Rightarrow> exn + frame" where
  "clean_columns df =
     (case (case columns df of
              Multi cs \<Rightarrow> map_result last_level cs
            | Flat ls \<Rightarrow> Inr ls) of
        Inl e \<Rightarrow> Inl e
      | Inr ls \<Rightarrow>
          (case map_result strip_lower ls of
             Inl e \<Rightarrow> Inl e
           | Inr ls' \<Rightarrow> Inr (df\<lparr>columns := Flat ls'\<rparr>)))"

subsection \<open>\<open>locate_projection_table\<close> and \<open>fetch_html_table\<close>\<close>

definition fpts_aliases :: "string list" where
  "fpts_aliases = [''fpts'', ''fantasy pts'', ''fantasypts'', ''points'', ''misc fpts'']"

text \<open>Each table is cleaned on a copy, so the tables of the list stay as they are.\<close>

fun locate_projection_table :: "frame list \<Rightarrow> exn + frame option" where
  "locate_projection_table [] = Inr None"
| "locate_projection_table (t # ts) =
     (case clean_columns t of
        Inl e \<Rightarrow> Inl e
      | Inr df \<Rightarrow>
          (if has_column df ''player'' \<and> list_ex (\<lambda>alias. has_column df alias) fpts_aliases
           then Inr (Some df)
           else locate_projection_table ts))"

definition fetch_html_table :: "lib \<Rightarrow> string \<Rightarrow> world \<Rightarrow> (exn + frame option) \<times> world" where
  "fetch_html_table L url w =
     (case requests_get w url of
        (Inl e, w1) \<Rightarrow> (Inl e, w1)
      | (Inr resp, w1) \<Rightarrow>
          (case raise_for_status resp of
             Inl e \<Rightarrow> (Inl e, w1)
           | Inr u \<Rightarrow>
               (case read_html L (body resp) of
                  Inl (Exn ValueError msg) \<Rightarrow> (Inr None, w1)
                | Inl (Exn k msg) \<Rightarrow> (Inl (Exn k msg), w1)
                | Inr tables \<Rightarrow> (locate_projection_table tables, w1))))"

subsection \<open>\<open>extract_player_team_fpts\<close>\<close>

text \<open>The inner function of lines 134 to 141, on one cell of the player column.\<close>

definition extract_player_team :: "lib \<Rightarrow> cell \<Rightarrow> cell \<times> cell" where
  "extract_player_team L player_str =
     (let parts = split (strip (py_str L player_str)) in
        if 2 \<le> length parts
        then (let potential_team = last parts in
                if length potential_team \<le> 4 \<and> isupper potential_team
                then (Str (join '' '' (butlast parts)), Str potential_team)
                else (player_str, NA))
        else (player_str, NA))"

text \<open>Lines 118 to 123: the player column, or a copy of the name column under that
  label.\<close>

definition resolve_player :: "frame \<Rightarrow> exn + frame" where
  "resolve_player df =
     (if \<not> has_column df ''player''
      then (if has_column df ''name''
            then Inr (setitem df ''player'' (getitem df ''name''))
            else Inl (Exn ValueError ''Could not find 'player' column in downloaded table.''))
      else Inr df)"

text \<open>Lines 126 to 148: the team column, from a column of the table or from the player
  cells.\<close>

definition team_columns :: "string list" where
  "team_columns = [''team'', ''tm'']"

definition resolve_team :: "lib \<Rightarrow> frame \<Rightarrow> frame" where
  "resolve_team L df =
     (case find (has_column df) team_columns of
        None \<Rightarrow>
          (let extracted = map (extract_player_team L) (getitem df ''player'');
               df' = setitem df ''player'' (map fst extracted)
           in setitem df' ''team'' (map snd extracted))
      | Some team_col \<Rightarrow> setitem df ''team'' (getitem df team_col))"

text \<open>\<^verbatim>\<open>s.astype(str).str.strip()\<close> on one cell.\<close>

definition astype_str_strip :: "lib \<Rightarrow> cell \<Rightarrow> cell" where
  "astype_str_strip L c = Str (strip (py_str L c))"

text \<open>Lines 159 to 168: the three columns on a copy, coerced, and the rows without a
  player or without points dropped.\<close>

definition coerce_and_drop :: "lib \<Rightarrow> frame \<Rightarrow> string \<Rightarrow> frame" where
  "coerce_and_drop L df fpts_col =
     (let out0 = rename_column (select_columns df [''player'', ''team'', fpts_col]) fpts_col ''fpts'';
          out1 = setitem out0 ''player'' (map (astype_str_strip L) (getitem out0 ''player''));
          out2 = setitem out1 ''team'' (map (astype_str_strip L) (getitem out1 ''team''));
          out3 = setitem out2 ''fpts'' (map (\<lambda>c. Num (to_numeric L c)) (getitem out2 ''fpts''))
      in filter_rows out3
           (map2 (\<lambda>p f. p \<noteq> Str [] \<and> f \<noteq> Num NaN) (getitem out3 ''player'') (getitem out3 ''fpts'')))"

text \<open>The labels line 152 looks for, in its order.\<close>

definition fpts_columns :: "string list" where
  "fpts_columns = [''fpts'', ''fantasy pts'', ''fantasypts'', ''points'', ''total fpts'']"

text \<open>
  The function works on the table it is given: \<open>clean_columns\<close> and the assignments to
  \<^verbatim>\<open>df["player"]\<close> and \<^verbatim>\<open>df["team"]\<close> change that object. The first component of
  the result is the state of the argument after the call, the second is what the call
  returns or raises.
\<close>

definition extract_player_team_fpts :: "lib \<Rightarrow> frame \<Rightarrow> frame \<times> (exn + frame)" where
  "extract_player_team_fpts L df =
     (case clean_columns df of
        Inl e \<Rightarrow> (df, Inl e)
      | Inr df1 \<Rightarrow>
          (case resolve_player df1 of
             Inl e \<Rightarrow> (df1, Inl e)
           | Inr df2 \<Rightarrow>
               (let df3 = resolve_team L df2 in
                  (case find (has_column df3) fpts_columns of
                     None \<Rightarrow>
                       (df3, Inl (Exn ValueError
                          ''Could not find 'FPTS' (season total) in downloaded table.''))
                   | Some fpts_col \<Rightarrow> (df3, Inr (coerce_and_drop L df3 fpts_col))))))"

subsection \<open>\<open>fetch_position\<close>\<close>

text \<open>Division of a float by \<^verbatim>\<open>float(weeks)\<close> as numpy does it: dividing by zero
  gives an infinity or NaN, not an exception.\<close>

fun divide_number :: "number \<Rightarrow> rat \<Rightarrow> number" where
  "divide_number (Finite x) d =
     (if d = 0 then (if 0 < x then PosInf else if x < 0 then NegInf else NaN)
      else Finite (x / d))"
| "divide_number PosInf d = (if 0 \<le> d then PosInf else NegInf)"
| "divide_number NegInf d = (if 0 \<le> d then NegInf else PosInf)"
| "divide_number NaN d = NaN"

text \<open>\<^verbatim>\<open>round(2)\<close>: to the nearest multiple of 1/100, a tie going to the even
  one.\<close>

definition round_half_even :: "rat \<Rightarrow> int" where
  "round_half_even x =
     (let f = \<lfloor>x\<rfloor>; d = x - of_int f
      in if d < 1 / 2 then f else if 1 / 2 < d then f + 1 else if even f then f else f + 1)"

fun round2 :: "number \<Rightarrow> number" where
  "round2 (Finite x) = Finite (of_int (round_half_even (x * 100)) / 100)"
| "round2 n = n"

text \<open>The number in a cell of the \<open>fpts\<close> column, which holds numbers after
  \<open>to_numeric\<close>.\<close>

fun number_of :: "cell \<Rightarrow> number" where
  "number_of (Num n) = n"
| "number_of c = NaN"

text \<open>Lines 189 to 191: the per-game rate, the position label on every row, and the
  four columns.\<close>

definition convert_rate :: "frame \<Rightarrow> int \<Rightarrow> string \<Rightarrow> frame" where
  "convert_rate base weeks pos_label =
     (let base1 = setitem base ''proj_pts''
                    (map (\<lambda>c. Num (round2 (divide_number (number_of c) (of_int weeks))))
                         (getitem base ''fpts''));
          base2 = setitem base1 ''pos'' (replicate (length (rows base1)) (Str pos_label))
      in select_columns base2 [''player'', ''team'', ''proj_pts'', ''pos''])"

text \<open>Lines 188 to 191: the field extraction and the rate conversion of one table.
  The table given to the extractor is not used afterwards, so its new state is
  dropped.\<close>

definition extract_and_convert :: "lib \<Rightarrow> frame \<Rightarrow> int \<Rightarrow> string \<Rightarrow> exn + frame" where
  "extract_and_convert L df weeks pos_label =
     (case snd (extract_player_team_fpts L df) of
        Inl e \<Rightarrow> Inl e
      | Inr base \<Rightarrow> Inr (convert_rate base weeks pos_label))"

text \<open>The body of the \<^verbatim>\<open>try\<close> block, lines 181 to 191: one attempt.\<close>

definition attempt_body :: "lib \<Rightarrow> string \<Rightarrow> string \<Rightarrow> int \<Rightarrow> world \<Rightarrow> (exn + frame) \<times> world" where
  "attempt_body L url pos_label weeks w =
     (case try_fetch_csv L url w of
        (Inl e, w1) \<Rightarrow> (Inl e, w1)
      | (Inr r, w1) \<Rightarrow>
          (case (case r of Some df \<Rightarrow> (Inr (Some df), w1) | None \<Rightarrow> fetch_html_table L url w1) of
             (Inl e, w2) \<Rightarrow> (Inl e, w2)
           | (Inr None, w2) \<Rightarrow> (Inl (Exn ValueError ''No data table found.''), w2)
           | (Inr (Some df), w2) \<Rightarrow>
               (if empty_frame df then (Inl (Exn ValueError ''No data table found.''), w2)
                else (extract_and_convert L df weeks pos_label, w2))))"

text \<open>The loop over \<^verbatim>\<open>range(retries + 1)\<close>, from the attempt \<open>attempt\<close> on. After
  the loop \<^verbatim>\<open>raise last_err\<close> is reached only when the loop made no attempt, and
  raising \<^verbatim>\<open>None\<close> is a \<^verbatim>\<open>TypeError\<close>.\<close>

function fetch_position_from ::
  "lib \<Rightarrow> string \<Rightarrow> string \<Rightarrow> int \<Rightarrow> int \<Rightarrow> rat \<Rightarrow> exn option \<Rightarrow> int \<Rightarrow> world \<Rightarrow> (exn + frame) \<times> world"
where
  "fetch_position_from L url pos_label weeks retries backoff last_err attempt w =
     (if attempt < retries + 1
      then (case attempt_body L url pos_label weeks w of
              (Inr res, w1) \<Rightarrow> (Inr res, w1)
            | (Inl e, w1) \<Rightarrow>
                (if attempt < retries
                 then (case sleep (backoff ^ nat attempt) w1 of
                         Inl e' \<Rightarrow> (Inl e', w1)
                       | Inr w2 \<Rightarrow>
                           fetch_position_from L url pos_label weeks retries backoff (Some e)
                             (attempt + 1) w2)
                 else (Inl (Exn RuntimeError
                          (''Failed to fetch '' @ pos_label @ '' from '' @ url @ '': '' @ exn_str e)),
                       w1)))
      else (case last_err of
              None \<Rightarrow> (Inl (Exn TypeError ''exceptions must derive from BaseException''), w)
            | Some e \<Rightarrow> (Inl e, w)))"
  by pat_completeness auto
termination
  by (relation "measure (\<lambda>(L, url, pos_label, weeks, retries, backoff, last_err, attempt, w).
        nat (retries + 1 - attempt))") auto

declare fetch_position_from.simps [simp del]

definition fetch_position ::
  "lib \<Rightarrow> string \<Rightarrow> string \<Rightarrow> int \<Rightarrow> int \<Rightarrow> rat \<Rightarrow> world \<Rightarrow> (exn + frame) \<times> world" where
  "fetch_position L url pos_label weeks retries backoff w =
     fetch_position_from L url pos_label weeks retries backoff None 0 w"

subsection \<open>\<open>main\<close>\<close>

definition URLS :: "(string \<times> string) list" where
  "URLS =
     [(''https://www.fantasypros.com/nfl/projections/qb.php?week=draft'', ''QB''),
      (''https://www.fantasypros.com/nfl/projections/rb.php?week=draft&scoring=HALF&week=draft'', ''RB''),
      (''https://www.fantasypros.com/nfl/projections/wr.php?week=draft&scoring=HALF&week=draft'', ''WR''),
      (''https://www.fantasypros.com/nfl/projections/te.php?week=draft&scoring=HALF&week=draft'', ''TE'')]"

text \<open>The loop of lines 219 to 223 over a list of (url, pos) pairs, with the default
  \<open>retries = 2\<close> and \<open>backoff = 1.5\<close>: the tables fetched, in the order of the list. An
  exception of \<open>fetch_position\<close> ends the run.\<close>

fun fetch_all :: "lib \<Rightarrow> int \<Rightarrow> (string \<times> string) list \<Rightarrow> world \<Rightarrow> (exn + frame list) \<times> world" where
  "fetch_all L weeks [] w = (Inr [], w)"
| "fetch_all L weeks ((url, pos) # rest) w =
     (case fetch_position L url pos weeks 2 (3 / 2) w of
        (Inl e, w1) \<Rightarrow> (Inl e, w1)
      | (Inr df_pos, w1) \<Rightarrow>
          (case fetch_all L weeks rest w1 of
             (Inl e, w2) \<Rightarrow> (Inl e, w2)
           | (Inr frames, w2) \<Rightarrow> (Inr (df_pos # frames), w2)))"

text \<open>The labels of a list in the order of their first occurrence.\<close>

fun first_occurrences :: "'a list \<Rightarrow> 'a list \<Rightarrow> 'a list" where
  "first_occurrences seen [] = []"
| "first_occurrences seen (x # xs) =
     (if x \<in> set seen then first_occurrences seen xs else x # first_occurrences (x # seen) xs)"

text \<open>\<^verbatim>\<open>pd.concat(frames, ignore_index=True)\<close>: the rows of the tables in order, over
  the union of their columns, a column a table lacks being NaN on its rows. An empty
  list raises.\<close>

definition concat_frames :: "frame list \<Rightarrow> exn + frame" where
  "concat_frames frames =
     (if frames = [] then Inl (Exn ValueError ''No objects to concatenate'')
      else
        (let ls = first_occurrences [] (concat (map (\<lambda>f. flat_labels (columns f)) frames))
         in Inr \<lparr>columns = Flat ls,
                 rows = concat (map (\<lambda>f. map (\<lambda>r. map (\<lambda>l.
                          if l \<in> set (flat_labels (columns f))
                          then cell_at r (index_of l (flat_labels (columns f)))
                          else Num NaN) ls) (rows f)) frames)\<rparr>))"

definition expected_positions :: "string list" where
  "expected_positions = [''QB'', ''RB'', ''WR'', ''TE'']"

text \<open>\<open>main\<close> up to the table it writes (lines 218 to 232); the command line, the
  printed progress and the file are not modelled.\<close>

definition main :: "lib \<Rightarrow> int \<Rightarrow> world \<Rightarrow> (exn + frame) \<times> world" where
  "main L weeks w =
     (case fetch_all L weeks URLS w of
        (Inl e, w1) \<Rightarrow> (Inl e, w1)
      | (Inr frames, w1) \<Rightarrow>
          (case concat_frames frames of
             Inl e \<Rightarrow> (Inl e, w1)
           | Inr df_all \<Rightarrow>
               (let df1 = filter_rows df_all
                            (map (\<lambda>c. c \<in> set (map Str expected_positions)) (getitem df_all ''pos''));
                    df2 = select_columns df1 [''player'', ''team'', ''proj_pts'', ''pos''];
                    df3 = setitem df2 ''proj_pts''
                            (map (\<lambda>c. Num (to_numeric L c)) (getitem df2 ''proj_pts''))
                in (Inr df3, w1))))"

section \<open>Notions used to state the properties\<close>

text \<open>A well-formed table has a flat or hierarchical header and one cell per column in
  every row, as every \<^verbatim>\<open>DataFrame\<close> has.\<close>

definition wf_frame :: "frame \<Rightarrow> bool" where
  "wf_frame df = list_all (\<lambda>r. length r = header_size (columns df)) (rows df)"

text \<open>What lines 159 to 165 make of one row of the table \<open>df\<close> whose points column is
  \<open>fc\<close>, and the test of line 168 on the result.\<close>

definition coerced_row :: "lib \<Rightarrow> frame \<Rightarrow> string \<Rightarrow> cell list \<Rightarrow> cell list" where
  "coerced_row L df fc r =
     [astype_str_strip L (cell_at r (column_index df ''player'')),
      astype_str_strip L (cell_at r (column_index df ''team'')),
      Num (to_numeric L (cell_at r (column_index df fc)))]"

definition kept_row :: "cell list \<Rightarrow> bool" where
  "kept_row r = (cell_at r 0 \<noteq> Str [] \<and> cell_at r 2 \<noteq> Num NaN)"

text \<open>What lines 189 to 191 make of one row of the extracted table.\<close>

definition rate_row :: "int \<Rightarrow> string \<Rightarrow> cell list \<Rightarrow> cell list" where
  "rate_row weeks pos_label r =
     [cell_at r 0, cell_at r 1,
      Num (round2 (divide_number (number_of (cell_at r 2)) (of_int weeks))), Str pos_label]"

section \<open>A small instance of the library, for the examples\<close>

text \<open>
  The examples below run the program on concrete inputs, which needs some instance of
  the library parameters. This one is deliberately small: decimal numbers without
  exponent, comma-separated text without quoting, pages without tables, and URLs split
  at the first question mark with no escaping. No general statement depends on it.
\<close>

definition is_digit :: "char \<Rightarrow> bool" where
  "is_digit c = (48 \<le> code_point c \<and> code_point c \<le> 57)"

definition nat_of_digits :: "string \<Rightarrow> nat" where
  "nat_of_digits ds = foldl (\<lambda>n c. 10 * n + (code_point c - 48)) 0 ds"

definition parse_unsigned :: "string \<Rightarrow> rat option" where
  "parse_unsigned s =
     (let ip = takeWhile is_digit s; rest = dropWhile is_digit s
      in if ip = [] then None
         else if rest = [] then Some (of_nat (nat_of_digits ip))
         else if hd rest = CHR ''.'' \<and> tl rest \<noteq> [] \<and> list_all is_digit (tl rest)
         then Some (of_nat (nat_of_digits ip) + of_nat (nat_of_digits (tl rest)) / 10 ^ length (tl rest))
         else None)"

definition example_float_of_str :: "string \<Rightarrow> number option" where
  "example_float_of_str s =
     (case strip s of
        [] \<Rightarrow> None
      | c # t \<Rightarrow>
          (if c = CHR ''-'' then map_option (\<lambda>x. Finite (- x)) (parse_unsigned t)
           else map_option Finite (parse_unsigned (c # t))))"

fun digits_of_nat :: "nat \<Rightarrow> nat \<Rightarrow> string" where
  "digits_of_nat 0 n = []"
| "digits_of_nat (Suc fuel) n =
     (if n < 10 then [char_of (48 + n)]
      else digits_of_nat fuel (n div 10) @ [char_of (48 + n mod 10)])"

definition example_str_of_float :: "rat \<Rightarrow> string" where
  "example_str_of_float x =
     (let h = nat \<lfloor>\<bar>x\<bar> * 100\<rfloor>; ip = h div 100; d1 = (h div 10) mod 10; d2 = h mod 10
      in (if x < 0 then ''-'' else []) @ digits_of_nat (Suc ip) ip @ ''.'' @ [char_of (48 + d1)]
         @ (if d2 = 0 then [] else [char_of (48 + d2)]))"

fun split_on :: "char \<Rightarrow> string \<Rightarrow> string list" where
  "split_on c [] = [[]]"
| "split_on c (x # xs) =
     (if x = c then [] # split_on c xs
      else (case split_on c xs of [] \<Rightarrow> [[x]] | h # t \<Rightarrow> (x # h) # t))"

definition example_read_csv :: "string \<Rightarrow> exn + frame" where
  "example_read_csv txt =
     (case map (split_on CHR '','') (splitlines txt) of
        [] \<Rightarrow> Inl (Exn OtherError ''No columns to parse from file'')
      | hdr # lines \<Rightarrow>
          (if list_ex (\<lambda>fields. length hdr < length fields) lines
           then Inl (Exn OtherError ''Error tokenizing data'')
           else Inr \<lparr>columns = Flat (map LStr hdr),
                     rows = map (\<lambda>fields. map (\<lambda>f. if f = [] then Num NaN else Str f) fields
                                            @ replicate (length hdr - length fields) (Num NaN))
                                lines\<rparr>))"

definition example_urlparse :: "string \<Rightarrow> exn + url_parts" where
  "example_urlparse url =
     Inr \<lparr>scheme = [], netloc = [], path = takeWhile (\<lambda>c. c \<noteq> CHR ''?'') url, params = [],
          query = drop 1 (dropWhile (\<lambda>c. c \<noteq> CHR ''?'') url), fragment = []\<rparr>"

definition example_urlunparse :: "url_parts \<Rightarrow> string" where
  "example_urlunparse parts = path parts @ (if query parts = [] then [] else ''?'' @ query parts)"

definition example_parse_qsl :: "string \<Rightarrow> (string \<times> string) list" where
  "example_parse_qsl qs =
     map (\<lambda>nv. (takeWhile (\<lambda>c. c \<noteq> CHR ''='') nv, drop 1 (dropWhile (\<lambda>c. c \<noteq> CHR ''='') nv)))
         (filter (\<lambda>nv. nv \<noteq> []) (split_on CHR ''&'' qs))"

definition example_urlencode :: "(string \<times> string) list \<Rightarrow> string" where
  "example_urlencode d = join ''&'' (map (\<lambda>(k, v). k @ ''='' @ v) d)"

definition example_lib :: lib where
  "example_lib =
     \<lparr>str_of_float = example_str_of_float,
      float_of_str = example_float_of_str,
      read_csv = example_read_csv,
      read_html = (\<lambda>page. Inl (Exn ValueError ''No tables found'')),
      urlparse = example_urlparse,
      parse_qsl = example_parse_qsl,
      urlencode = example_urlencode,
      urlunparse = example_urlunparse\<rparr>"

text \<open>Tables for the examples.\<close>

definition negative_points_table :: frame where
  "negative_points_table =
     \<lparr>columns = Flat [LStr ''Player'', LStr ''Team'', LStr ''FPTS''],
      rows = [[Str ''Joe X'', Str ''NE'', Num (Finite (- 34))]]\<rparr>"

definition season_table :: frame where
  "season_table =
     \<lparr>columns = Flat [LStr ''Player'', LStr ''Team'', LStr ''FPTS''],
      rows = [[Str ''Josh Allen'', Str ''BUF'', Num (Finite 340)],
              [Str [], Str ''BUF'', Num (Finite 300)],
              [Str ''Joe X'', Str ''NE'', Str ''abc''],
              [Str ''Jalen Hurts'', Str ''PHI'', Num (Finite 255)]]\<rparr>"

definition season_rates :: frame where
  "season_rates =
     \<lparr>columns = Flat [LStr ''player'', LStr ''team'', LStr ''proj_pts'', LStr ''pos''],
      rows = [[Str ''Josh Allen'', Str ''BUF'', Num (Finite 20), Str ''QB''],
              [Str ''Jalen Hurts'', Str ''PHI'', Num (Finite 15), Str ''QB'']]\<rparr>"

definition misc_fpts_table :: frame where
  "misc_fpts_table =
     \<lparr>columns = Flat [LStr ''Player'', LStr ''MISC FPTS''],
      rows = [[Str ''Josh Allen'', Num (Finite 340)]]\<rparr>"

definition blank_response :: response where
  "blank_response = \<lparr>status_code = 200, body = [], status_error = []\<rparr>"

text \<open>A world in which every request is answered 200 with an empty body.\<close>

definition blank_world :: world where
  "blank_world = \<lparr>net = (\<lambda>n url. Inr blank_response), requests = 0, slept = []\<rparr>"

text \<open>The column the player cells are read from (lines 118 to 121): \<open>player\<close>, or
  \<open>name\<close> when there is no \<open>player\<close>.\<close>

definition player_source :: "frame \<Rightarrow> string" where
  "player_source df = (if has_column df ''player'' then ''player'' else ''name'')"

text \<open>The team-splitting rule in the words of the specification, on the text of one
  player cell: the player and the team of the output row. The last
  whitespace-delimited token is the team when there are at least two tokens and that
  token has at most 4 characters and is upper-case; the player is then the preceding
  tokens rejoined. Otherwise the team is unknown, which the output spells \<open><NA>\<close>, and
  the player is the text of the cell, trimmed like every output string.\<close>

definition split_rule :: "string \<Rightarrow> string \<times> string" where
  "split_rule s =
     (let tokens = split s in
        if 2 \<le> length tokens \<and> length (last tokens) \<le> 4 \<and> isupper (last tokens)
        then (join '' '' (butlast tokens), last tokens)
        else (strip s, ''<NA>''))"

definition lamar_table :: frame where
  "lamar_table =
     \<lparr>columns = Flat [LStr ''Player'', LStr ''FPTS''],
      rows = [[Str ''Lamar Jackson BAL'', Num (Finite 340)],
              [Str ''Patrick Mahomes II'', Num (Finite 255)]]\<rparr>"

definition lamar_only_table :: frame where
  "lamar_only_table = \<lparr>columns = Flat [LStr ''player''], rows = [[Str ''Lamar Jackson BAL'']]\<rparr>"

definition blank_team_table :: frame where
  "blank_team_table =
     \<lparr>columns = Flat [LStr ''Player'', LStr ''Team'', LStr ''FPTS''],
      rows = [[Str ''Joe X'', Str ''  '', Num (Finite 300)]]\<rparr>"



text \<open>
  The attempts of \<open>fetch_position\<close> as a sequence. \<open>state_before \<dots> w k\<close> is the world in
  which attempt \<open>k\<close> (counted from 0) starts when the attempts before it have failed:
  each of them leaves the world its requests made, and is followed by a sleep of
  \<open>backoff ^ j\<close> seconds. \<open>outcome \<dots> w k\<close> is what attempt \<open>k\<close> returns or raises
  there, and \<open>state_after \<dots> w k\<close> the world it leaves.
\<close>

fun state_before :: "lib \<Rightarrow> string \<Rightarrow> string \<Rightarrow> int \<Rightarrow> rat \<Rightarrow> world \<Rightarrow> nat \<Rightarrow> world" where
  "state_before L url pos_label weeks backoff w 0 = w"
| "state_before L url pos_label weeks backoff w (Suc k) =
     (let w1 = snd (attempt_body L url pos_label weeks (state_before L url pos_label weeks backoff w k))
      in w1\<lparr>slept := slept w1 @ [backoff ^ k]\<rparr>)"

definition outcome :: "lib \<Rightarrow> string \<Rightarrow> string \<Rightarrow> int \<Rightarrow> rat \<Rightarrow> world \<Rightarrow> nat \<Rightarrow> exn + frame" where
  "outcome L url pos_label weeks backoff w k =
     fst (attempt_body L url pos_label weeks (state_before L url pos_label weeks backoff w k))"

definition state_after :: "lib \<Rightarrow> string \<Rightarrow> string \<Rightarrow> int \<Rightarrow> rat \<Rightarrow> world \<Rightarrow> nat \<Rightarrow> world" where
  "state_after L url pos_label weeks backoff w k =
     snd (attempt_body L url pos_label weeks (state_before L url pos_label weeks backoff w k))"

text \<open>The message of the failure that \<open>fetch_position\<close> raises when its last attempt
  raised \<open>e\<close>.\<close>

definition wrapped_failure :: "string \<Rightarrow> string \<Rightarrow> exn \<Rightarrow> exn" where
  "wrapped_failure pos_label url e =
     Exn RuntimeError (''Failed to fetch '' @ pos_label @ '' from '' @ url @ '': '' @ exn_str e)"

text \<open>Worlds for the examples: the export of one quarterback; a network whose first
  two requests time out and which then serves that export; and a network on which
  every request times out.\<close>

definition qb_url :: string where
  "qb_url = ''https://www.fantasypros.com/nfl/projections/qb.php?week=draft''"

definition qb_export :: response where
  "qb_export =
     \<lparr>status_code = 200,
      body = ''Player,Team,FPTS'' @ [CHR 0x0A] @ ''Josh Allen,BUF,340'',
      status_error = []\<rparr>"

definition flaky_world :: world where
  "flaky_world =
     \<lparr>net = (\<lambda>n url. if n < 2 then Inl (Exn OtherError ''Connection timed out'') else Inr qb_export),
      requests = 0, slept = []\<rparr>"

definition dead_world :: world where
  "dead_world =
     \<lparr>net = (\<lambda>n url. Inl (Exn OtherError ''Connection timed out'')), requests = 0, slept = []\<rparr>"

definition qb_rates :: frame where
  "qb_rates =
     \<lparr>columns = Flat [LStr ''player'', LStr ''team'', LStr ''proj_pts'', LStr ''pos''],
      rows = [[Str ''Josh Allen'', Str ''BUF'', Num (Finite 20), Str ''QB'']]\<rparr>"

text \<open>The four labels of a result table, and the shape of the result of
  \<open>fetch_position\<close> for a position: those columns, and on every row a number as the
  third cell and the position label as the fourth.\<close>

definition result_labels :: "label list" where
  "result_labels = [LStr ''player'', LStr ''team'', LStr ''proj_pts'', LStr ''pos'']"

definition position_frame :: "string \<Rightarrow> frame \<Rightarrow> bool" where
  "position_frame pos_label f =
     (columns f = Flat result_labels \<and>
      list_all (\<lambda>r. \<exists>a b n. r = [a, b, Num n, Str pos_label]) (rows f))"

text \<open>A network that answers the \<open>n\<close>-th request with the export of one player of the
  \<open>n\<close>-th position.\<close>

definition export_of :: "string \<Rightarrow> response" where
  "export_of line =
     \<lparr>status_code = 200, body = ''Player,Team,FPTS'' @ [CHR 0x0A] @ line, status_error = []\<rparr>"

definition season_world :: world where
  "season_world =
     \<lparr>net = (\<lambda>n url. Inr (export_of
         (if n = 0 then ''Josh Allen,BUF,340''
          else if n = 1 then ''Saquon Barkley,PHI,255''
          else if n = 2 then ''Ja'Marr Chase,CIN,272''
          else ''Brock Bowers,LV,170''))),
      requests = 0, slept = []\<rparr>"

definition season_output :: frame where
  "season_output =
     \<lparr>columns = Flat [LStr ''player'', LStr ''team'', LStr ''proj_pts'', LStr ''pos''],
      rows = [[Str ''Josh Allen'', Str ''BUF'', Num (Finite 20), Str ''QB''],
              [Str ''Saquon Barkley'', Str ''PHI'', Num (Finite 15), Str ''RB''],
              [Str ''Ja'Marr Chase'', Str ''CIN'', Num (Finite 16), Str ''WR''],
              [Str ''Brock Bowers'', Str ''LV'', Num (Finite 10), Str ''TE'']]\<rparr>"



section \<open>Lemmas on strings\<close>

lemma split_from_tokens:
  "\<not> list_ex isspace cur \<Longrightarrow> t \<in> set (split_from cur s) \<Longrightarrow> t \<noteq> [] \<and> \<not> list_ex isspace t"
proof (induction s arbitrary: cur)
  case Nil
  then show ?case by (cases "cur = []") (simp_all add: list_ex_iff)
next
  case (Cons c cs)
  show ?case
  proof (cases "isspace c")
    case True
    show ?thesis
    proof (cases "cur = []")
      case True
      with \<open>isspace c\<close> Cons.prems have "t \<in> set (split_from [] cs)" by simp
      then show ?thesis using Cons.IH [of "[]"] by simp
    next
      case False
      with \<open>isspace c\<close> Cons.prems have "t = rev cur \<or> t \<in> set (split_from [] cs)" by simp
      then show ?thesis
      proof
        assume "t = rev cur"
        with False Cons.prems(1) show ?thesis by (simp add: list_ex_iff)
      next
        assume "t \<in> set (split_from [] cs)"
        then show ?thesis using Cons.IH [of "[]"] by simp
      qed
    qed
  next
    case False
    with Cons.prems have "t \<in> set (split_from (c # cur) cs)" by simp
    moreover from False Cons.prems(1) have "\<not> list_ex isspace (c # cur)" by simp
    ultimately show ?thesis using Cons.IH [of "c # cur"] by blast
  qed
qed

lemma split_tokens: "t \<in> set (split s) \<Longrightarrow> t \<noteq> [] \<and> \<not> list_ex isspace t"
  unfolding split_def using split_from_tokens [of "[]" t s] by simp

lemma dropWhile_none: "\<not> list_ex P xs \<Longrightarrow> dropWhile P xs = xs"
  by (cases xs) (auto simp: list_ex_iff)

lemma strip_token: "\<not> list_ex isspace t \<Longrightarrow> strip t = t"
  by (simp add: strip_def dropWhile_none list_ex_iff)

lemma strip_ends:
  assumes "s \<noteq> []" "\<not> isspace (hd s)" "\<not> isspace (last s)"
  shows "strip s = s"
proof -
  from assms have 1: "dropWhile isspace s = s" by (cases s) auto
  from assms have "rev s \<noteq> []" "\<not> isspace (hd (rev s))" by (auto simp: hd_rev)
  then have 2: "dropWhile isspace (rev s) = rev s" by (cases "rev s") auto
  show ?thesis by (simp add: strip_def 1 2)
qed

section \<open>Lemmas on tables\<close>

lemma map2_same: "map2 F (map g xs) (map h xs) = map (\<lambda>x. F (g x) (h x)) xs"
  by (induction xs) simp_all

lemma map2_same_left: "map2 F xs (map h xs) = map (\<lambda>x. F x (h x)) xs"
  using map2_same [of F "\<lambda>x. x" xs h] by simp

lemma filter_zip_same: "map fst (filter snd (zip xs (map p xs))) = filter p xs"
  by (induction xs) simp_all

lemma coerce_and_drop_rows:
  assumes "fc \<noteq> ''player''" "fc \<noteq> ''team''"
  shows "coerce_and_drop L df fc =
     \<lparr>columns = Flat [LStr ''player'', LStr ''team'', LStr ''fpts''],
      rows = filter kept_row (map (coerced_row L df fc) (rows df))\<rparr>"
proof -
  define out0 where "out0 = rename_column (select_columns df [''player'', ''team'', fc]) fc ''fpts''"
  have o0: "out0 = \<lparr>columns = Flat [LStr ''player'', LStr ''team'', LStr ''fpts''],
      rows = map (\<lambda>r. [cell_at r (column_index df ''player''), cell_at r (column_index df ''team''),
                        cell_at r (column_index df fc)]) (rows df)\<rparr>"
    using assms by (simp add: out0_def rename_column_def select_columns_def)
  define out1 where "out1 = setitem out0 ''player'' (map (astype_str_strip L) (getitem out0 ''player''))"
  have o1: "out1 = \<lparr>columns = Flat [LStr ''player'', LStr ''team'', LStr ''fpts''],
      rows = map (\<lambda>r. [astype_str_strip L (cell_at r (column_index df ''player'')), cell_at r (column_index df ''team''),
                        cell_at r (column_index df fc)]) (rows df)\<rparr>"
    by (simp add: out1_def o0 setitem_def getitem_def has_column_def column_index_def cell_at_def
        map2_same comp_def)
  define out2 where "out2 = setitem out1 ''team'' (map (astype_str_strip L) (getitem out1 ''team''))"
  have o2: "out2 = \<lparr>columns = Flat [LStr ''player'', LStr ''team'', LStr ''fpts''],
      rows = map (\<lambda>r. [astype_str_strip L (cell_at r (column_index df ''player'')),
                        astype_str_strip L (cell_at r (column_index df ''team'')),
                        cell_at r (column_index df fc)]) (rows df)\<rparr>"
    by (simp add: out2_def o1 setitem_def getitem_def has_column_def column_index_def cell_at_def
        map2_same comp_def)
  define out3 where "out3 = setitem out2 ''fpts'' (map (\<lambda>c. Num (to_numeric L c)) (getitem out2 ''fpts''))"
  have o3: "out3 = \<lparr>columns = Flat [LStr ''player'', LStr ''team'', LStr ''fpts''],
      rows = map (coerced_row L df fc) (rows df)\<rparr>"
    by (simp add: out3_def o2 setitem_def getitem_def has_column_def column_index_def cell_at_def
        map2_same comp_def coerced_row_def)
  have "coerce_and_drop L df fc = filter_rows out3
           (map2 (\<lambda>p f. p \<noteq> Str [] \<and> f \<noteq> Num NaN) (getitem out3 ''player'') (getitem out3 ''fpts''))"
    by (simp add: coerce_and_drop_def out0_def out1_def out2_def out3_def Let_def)
  also have "\<dots> = \<lparr>columns = Flat [LStr ''player'', LStr ''team'', LStr ''fpts''],
      rows = filter kept_row (map (coerced_row L df fc) (rows df))\<rparr>"
  proof -
    have g: "map2 (\<lambda>p f. p \<noteq> Str [] \<and> f \<noteq> Num NaN) (getitem out3 ''player'') (getitem out3 ''fpts'')
          = map kept_row (rows out3)"
      by (simp add: o3 getitem_def column_index_def map2_same kept_row_def comp_def numeral_2_eq_2)
    show ?thesis unfolding g filter_rows_def filter_zip_same
      by (simp add: o3)
  qed
  finally show ?thesis .
qed

lemma fpts_columns_not_player_team:
  "fc \<in> set fpts_columns \<Longrightarrow> fc \<noteq> ''player'' \<and> fc \<noteq> ''team''"
  by (auto simp: fpts_columns_def)

lemma extract_Inr:
  assumes "extract_player_team_fpts L df = (df3, Inr out)"
  shows "\<exists>fc. find (has_column df3) fpts_columns = Some fc \<and> fc \<in> set fpts_columns \<and> has_column df3 fc \<and>
     out = \<lparr>columns = Flat [LStr ''player'', LStr ''team'', LStr ''fpts''],
            rows = filter kept_row (map (coerced_row L df3 fc) (rows df3))\<rparr>"
proof -
  from assms obtain fc where f: "find (has_column df3) fpts_columns = Some fc"
    and o: "out = coerce_and_drop L df3 fc"
    by (auto simp: extract_player_team_fpts_def Let_def split: sum.splits option.splits)
  from f have m: "fc \<in> set fpts_columns" "has_column df3 fc"
    by (auto simp: find_Some_iff)
  with f o show ?thesis
    using coerce_and_drop_rows [of fc L df3] fpts_columns_not_player_team [of fc] by simp
qed

lemma map2_replicate: "map2 F xs (replicate (length xs) c) = map (\<lambda>x. F x c) xs"
  by (induction xs) simp_all

lemma coerced_row_length: "length (coerced_row L df fc r) = 3"
  by (simp add: coerced_row_def)

lemma convert_rate_rows:
  assumes "columns base = Flat [LStr ''player'', LStr ''team'', LStr ''fpts'']"
    and "list_all (\<lambda>r. length r = 3) (rows base)"
  shows "convert_rate base weeks pos_label =
     \<lparr>columns = Flat [LStr ''player'', LStr ''team'', LStr ''proj_pts'', LStr ''pos''],
      rows = map (rate_row weeks pos_label) (rows base)\<rparr>"
proof -
  define f where "f = (\<lambda>r. Num (round2 (divide_number (number_of (cell_at r 2)) (of_int weeks))))"
  define base1 where "base1 = setitem base ''proj_pts''
                    (map (\<lambda>c. Num (round2 (divide_number (number_of c) (of_int weeks))))
                         (getitem base ''fpts''))"
  have b1: "base1 = \<lparr>columns = Flat [LStr ''player'', LStr ''team'', LStr ''fpts'', LStr ''proj_pts''],
      rows = map (\<lambda>r. r @ [f r]) (rows base)\<rparr>"
    using assms(1)
    by (simp add: base1_def setitem_def getitem_def has_column_def column_index_def
        map2_same_left comp_def f_def numeral_2_eq_2)
  define base2 where "base2 = setitem base1 ''pos'' (replicate (length (rows base1)) (Str pos_label))"
  have b2: "base2 = \<lparr>columns = Flat [LStr ''player'', LStr ''team'', LStr ''fpts'', LStr ''proj_pts'', LStr ''pos''],
      rows = map (\<lambda>r. r @ [f r, Str pos_label]) (rows base)\<rparr>"
    unfolding base2_def setitem_def map2_replicate
    by (simp add: b1 has_column_def comp_def)
  have "convert_rate base weeks pos_label = select_columns base2 [''player'', ''team'', ''proj_pts'', ''pos'']"
    by (simp add: convert_rate_def base1_def base2_def Let_def)
  also have "\<dots> = \<lparr>columns = Flat [LStr ''player'', LStr ''team'', LStr ''proj_pts'', LStr ''pos''],
      rows = map (rate_row weeks pos_label) (rows base)\<rparr>"
  proof -
    have "\<And>r. r \<in> set (rows base) \<Longrightarrow>
        map (\<lambda>c. cell_at (r @ [f r, Str pos_label]) (column_index base2 c)) [''player'', ''team'', ''proj_pts'', ''pos'']
        = rate_row weeks pos_label r"
    proof -
      fix r assume "r \<in> set (rows base)"
      with assms(2) have "length r = 3" by (simp add: list_all_iff)
      then obtain a b c where r: "r = [a, b, c]"
        by (cases r; cases "tl r"; cases "tl (tl r)") auto
      show "map (\<lambda>c. cell_at (r @ [f r, Str pos_label]) (column_index base2 c)) [''player'', ''team'', ''proj_pts'', ''pos'']
        = rate_row weeks pos_label r"
        by (simp add: r b2 column_index_def cell_at_def rate_row_def f_def)
    qed
    then show ?thesis
      by (simp add: select_columns_def b2 comp_def)
  qed
  finally show ?thesis .
qed

lemma extract_convert:
  assumes "extract_player_team_fpts L df = (df3, Inr base)"
  shows "\<exists>fc. find (has_column df3) fpts_columns = Some fc \<and>
     convert_rate base weeks pos_label =
       \<lparr>columns = Flat [LStr ''player'', LStr ''team'', LStr ''proj_pts'', LStr ''pos''],
        rows = map (rate_row weeks pos_label)
                 (filter kept_row (map (coerced_row L df3 fc) (rows df3)))\<rparr>"
proof -
  from extract_Inr [OF assms] obtain fc where f: "find (has_column df3) fpts_columns = Some fc"
    and b: "base = \<lparr>columns = Flat [LStr ''player'', LStr ''team'', LStr ''fpts''],
            rows = filter kept_row (map (coerced_row L df3 fc) (rows df3))\<rparr>" by blast
  have "list_all (\<lambda>r. length r = 3) (rows base)"
    by (auto simp: b list_all_iff coerced_row_length)
  with b f show ?thesis using convert_rate_rows [of base weeks pos_label] by simp
qed

section \<open>The retained rows (C1)\<close>

lemma round2_divide_not_NaN: "n \<noteq> NaN \<Longrightarrow> d \<noteq> 0 \<Longrightarrow> round2 (divide_number n d) \<noteq> NaN"
  by (cases n) auto

lemma kept_coerced_valid:
  assumes "kept_row (coerced_row L df fc r)" "weeks \<noteq> 0"
  shows "(\<exists>s. cell_at (rate_row weeks pos_label (coerced_row L df fc r)) 0 = Str s \<and> s \<noteq> []) \<and>
         (\<exists>n. cell_at (rate_row weeks pos_label (coerced_row L df fc r)) 2 = Num n \<and> n \<noteq> NaN)"
  using assms
  by (simp add: kept_row_def coerced_row_def rate_row_def cell_at_def astype_str_strip_def
      round2_divide_not_NaN)

text \<open>
  C1, as the code has it. The claim asks for a non-negative finite \<open>proj_pts\<close> on every
  retained row; the code tests only that the points are not missing (line 168), so a
  negative or infinite total is kept. What holds: when the extraction and the rate
  conversion of a table succeed and \<open>weeks\<close> is not zero, every row of the result has a
  non-empty player string and a \<open>proj_pts\<close> that is a number and not NaN; and the rows of
  the result are, in order, exactly the rows of the table whose trimmed player text is
  not empty and whose points are not missing after the numeric coercion.
\<close>

theorem retained_rows_valid:
  assumes "extract_and_convert L df weeks pos_label = Inr out" and "weeks \<noteq> 0"
  shows "list_all (\<lambda>r. (\<exists>s. cell_at r 0 = Str s \<and> s \<noteq> []) \<and> (\<exists>n. cell_at r 2 = Num n \<and> n \<noteq> NaN))
           (rows out) \<and>
         (\<exists>fc. find (has_column (fst (extract_player_team_fpts L df))) fpts_columns = Some fc \<and>
            rows out = map (rate_row weeks pos_label)
              (filter kept_row
                 (map (coerced_row L (fst (extract_player_team_fpts L df)) fc)
                      (rows (fst (extract_player_team_fpts L df))))))"
proof -
  obtain df3 res where e: "extract_player_team_fpts L df = (df3, res)"
    by (cases "extract_player_team_fpts L df")
  with assms(1) obtain base where b: "res = Inr base" and o: "out = convert_rate base weeks pos_label"
    by (auto simp: extract_and_convert_def split: sum.splits)
  from extract_convert [of L df df3 base weeks pos_label] e b o
  obtain fc where f: "find (has_column df3) fpts_columns = Some fc"
    and r: "rows out = map (rate_row weeks pos_label)
                 (filter kept_row (map (coerced_row L df3 fc) (rows df3)))"
    by auto
  have "list_all (\<lambda>r. (\<exists>s. cell_at r 0 = Str s \<and> s \<noteq> []) \<and> (\<exists>n. cell_at r 2 = Num n \<and> n \<noteq> NaN))
           (rows out)"
    unfolding r list_all_iff using kept_coerced_valid [OF _ assms(2)] by auto
  with f r e show ?thesis by auto
qed

text \<open>The theorem at a table of four rows, two of which are dropped (one has no
  player, one has points that are not a number), with 17 games.\<close>

theorem retained_rows_valid_witness:
  "extract_and_convert example_lib season_table 17 ''QB'' = Inr season_rates \<and>
   list_all (\<lambda>r. (\<exists>s. cell_at r 0 = Str s \<and> s \<noteq> []) \<and> (\<exists>n. cell_at r 2 = Num n \<and> n \<noteq> NaN))
     (rows season_rates)"
proof -
  have h: "extract_and_convert example_lib season_table 17 ''QB'' = Inr season_rates"
    by code_simp
  have w: "(17::int) \<noteq> 0" by simp
  from retained_rows_valid [OF h w] h show ?thesis by blast
qed

text \<open>The claim as stated fails: a season total of -34 points passes the extraction
  and is retained with \<open>proj_pts = -2\<close>.\<close>

theorem negative_points_retained:
  "extract_and_convert example_lib negative_points_table 17 ''QB'' =
     Inr \<lparr>columns = Flat [LStr ''player'', LStr ''team'', LStr ''proj_pts'', LStr ''pos''],
          rows = [[Str ''Joe X'', Str ''NE'', Num (Finite (- 2)), Str ''QB'']]\<rparr>"
  by code_simp

section \<open>The per-game rate (C6)\<close>

lemma extract_base_shape:
  assumes "snd (extract_player_team_fpts L df) = Inr base"
  shows "columns base = Flat [LStr ''player'', LStr ''team'', LStr ''fpts''] \<and>
         list_all (\<lambda>r. length r = 3) (rows base)"
proof -
  obtain df3 where "extract_player_team_fpts L df = (df3, Inr base)"
    using assms by (cases "extract_player_team_fpts L df") auto
  from extract_Inr [OF this] show ?thesis
    by (auto simp: list_all_iff coerced_row_length)
qed



section \<open>The structured-export fetch (C3)\<close>

lemma splitlines_from_Nil: "splitlines_from cur s = [] \<longleftrightarrow> cur = [] \<and> s = []"
  by (induction cur s rule: splitlines_from.induct) auto

text \<open>What \<open>try_fetch_csv\<close> makes of a response, case by case: it returns \<^verbatim>\<open>None\<close> on a
  status other than 200, on a first line without the token and on a parse failure, and
  the parsed table otherwise, except for a body that is empty once stripped.\<close>

lemma csv_of_response_cases:
  "csv_of_response L resp =
     (if status_code resp \<noteq> 200 then Inr None
      else if strip (body resp) = [] then Inl (Exn IndexError ''list index out of range'')
      else if \<not> contains ''Player'' (hd (splitlines (strip (body resp)))) then Inr None
      else (case read_csv L (strip (body resp)) of Inl e \<Rightarrow> Inr None | Inr df \<Rightarrow> Inr (Some df)))"
proof (cases "splitlines (strip (body resp))")
  case Nil
  then have "strip (body resp) = []" by (simp add: splitlines_def splitlines_from_Nil)
  then show ?thesis by (simp add: csv_of_response_def splitlines_def)
next
  case (Cons l ls)
  then have "strip (body resp) \<noteq> []" by (auto simp: splitlines_def)
  with Cons show ?thesis by (simp add: csv_of_response_def)
qed

text \<open>
  C3 at the input where the code departs from it: a response with status 200 whose
  body is empty (or only whitespace). \<^verbatim>\<open>text.splitlines()\<close> is then the empty list and
  \<^verbatim>\<open>[0]\<close> raises \<^verbatim>\<open>IndexError\<close>, on line 62, outside the \<^verbatim>\<open>try\<close>; the function
  raises where its docstring and the claim say it returns \<^verbatim>\<open>None\<close>.
\<close>

theorem empty_body_raises:
  "csv_of_response L blank_response = Inl (Exn IndexError ''list index out of range'') \<and>
   fst (try_fetch_csv example_lib ''https://www.fantasypros.com/nfl/projections/qb.php?week=draft''
          blank_world) = Inl (Exn IndexError ''list index out of range'')"
proof -
  have 1: "csv_of_response L blank_response = Inl (Exn IndexError ''list index out of range'')"
    by (simp add: csv_of_response_cases blank_response_def strip_def)
  have 2: "fst (try_fetch_csv example_lib ''https://www.fantasypros.com/nfl/projections/qb.php?week=draft''
          blank_world) = Inl (Exn IndexError ''list index out of range'')"
    by code_simp
  from 1 2 show ?thesis by simp
qed

section \<open>Selection does not imply extraction (C9)\<close>

text \<open>
  C9. A table with the columns \<open>Player\<close> and \<open>MISC FPTS\<close> is accepted by
  \<open>locate_projection_table\<close>, which returns its cleaned copy, and the extractor raises
  the missing-column error for the points on that copy, and on the table itself:
  \<open>misc fpts\<close> is among the aliases of the selector and not among the labels the
  extractor looks for.
\<close>

theorem selected_table_not_extractable:
  "locate_projection_table [misc_fpts_table] =
     Inr (Some \<lparr>columns = Flat [LStr ''player'', LStr ''misc fpts''],
                rows = [[Str ''Josh Allen'', Num (Finite 340)]]\<rparr>) \<and>
   snd (extract_player_team_fpts example_lib
          \<lparr>columns = Flat [LStr ''player'', LStr ''misc fpts''],
           rows = [[Str ''Josh Allen'', Num (Finite 340)]]\<rparr>) =
     Inl (Exn ValueError ''Could not find 'FPTS' (season total) in downloaded table.'') \<and>
   snd (extract_player_team_fpts example_lib misc_fpts_table) =
     Inl (Exn ValueError ''Could not find 'FPTS' (season total) in downloaded table.'')"
  by code_simp

section \<open>The rows of the extracted table, from the rows of the input\<close>

lemma map_result_length: "map_result f xs = Inr ys \<Longrightarrow> length ys = length xs"
  by (induction xs arbitrary: ys) (auto split: sum.splits)

lemma clean_columns_Inr:
  assumes "clean_columns df = Inr df1"
  shows "rows df1 = rows df \<and> (\<exists>ls. columns df1 = Flat ls \<and> length ls = header_size (columns df))"
proof (cases "columns df")
  case (Flat ls)
  with assms show ?thesis
    by (auto simp: clean_columns_def split: sum.splits dest: map_result_length)
next
  case (Multi cs)
  with assms obtain l1 l2 where "map_result last_level cs = Inr l1" "map_result strip_lower l1 = Inr l2"
    "df1 = df\<lparr>columns := Flat l2\<rparr>"
    by (auto simp: clean_columns_def split: sum.splits)
  with Multi show ?thesis
    using map_result_length [of last_level cs l1] map_result_length [of strip_lower l1 l2] by simp
qed

lemma index_of_less: "x \<in> set xs \<Longrightarrow> index_of x xs < length xs"
  by (induction xs) auto

lemma index_of_append: "x \<in> set xs \<Longrightarrow> index_of x (xs @ ys) = index_of x xs"
  by (induction xs) auto

lemma index_of_new: "x \<notin> set xs \<Longrightarrow> index_of x (xs @ [x]) = length xs"
  by (induction xs) auto

lemma index_of_nth: "x \<in> set xs \<Longrightarrow> xs ! index_of x xs = x"
  by (induction xs) auto

lemma index_of_neq: "x \<in> set xs \<Longrightarrow> x \<noteq> y \<Longrightarrow> index_of x xs \<noteq> index_of y xs"
  by (induction xs) auto

lemma resolve_player_cases:
  assumes "columns df1 = Flat ls" and "resolve_player df1 = Inr df2"
  shows "(LStr ''player'' \<in> set ls \<and> df2 = df1) \<or>
         (LStr ''player'' \<notin> set ls \<and> LStr ''name'' \<in> set ls \<and>
          df2 = \<lparr>columns = Flat (ls @ [LStr ''player'']),
                 rows = map (\<lambda>r. r @ [cell_at r (index_of (LStr ''name'') ls)]) (rows df1)\<rparr>)"
  using assms
  by (auto simp: resolve_player_def has_column_def setitem_def getitem_def column_index_def
      map2_same_left split: if_splits)

lemma resolve_team_split:
  assumes "columns df2 = Flat ls" and "LStr ''team'' \<notin> set ls" and "LStr ''tm'' \<notin> set ls"
    and "LStr ''player'' \<in> set ls"
  shows "resolve_team L df2 =
     \<lparr>columns = Flat (ls @ [LStr ''team'']),
      rows = map (\<lambda>r. r[index_of (LStr ''player'') ls :=
                          fst (extract_player_team L (cell_at r (index_of (LStr ''player'') ls)))]
                     @ [snd (extract_player_team L (cell_at r (index_of (LStr ''player'') ls)))])
                 (rows df2)\<rparr>"
  using assms
  by (simp add: resolve_team_def team_columns_def has_column_def setitem_def getitem_def
      column_index_def map2_same map2_same_left comp_def Let_def)

lemma index_of_new2: "a \<notin> set xs \<Longrightarrow> b \<notin> set xs \<Longrightarrow> a \<noteq> b \<Longrightarrow>
    index_of a (xs @ [a, b]) = length xs \<and> index_of b (xs @ [a, b]) = Suc (length xs)"
  by (induction xs) auto

lemma heuristic_rows:
  assumes wf: "wf_frame df" and c: "clean_columns df = Inr df1"
    and nt: "\<not> has_column df1 ''team''" "\<not> has_column df1 ''tm''"
    and e: "snd (extract_player_team_fpts L df) = Inr out"
  shows "\<exists>fc. find (has_column df1) fpts_columns = Some fc \<and>
     rows out = filter kept_row (map (\<lambda>r.
        [astype_str_strip L (fst (extract_player_team L (cell_at r (column_index df1 (player_source df1))))),
         astype_str_strip L (snd (extract_player_team L (cell_at r (column_index df1 (player_source df1))))),
         Num (to_numeric L (cell_at r (column_index df1 fc)))]) (rows df))"
proof -
  from clean_columns_Inr [OF c] obtain ls where ls: "columns df1 = Flat ls"
    and len: "length ls = header_size (columns df)" and rs: "rows df1 = rows df" by blast
  from wf len have rl: "\<And>r. r \<in> set (rows df) \<Longrightarrow> length r = length ls"
    by (simp add: wf_frame_def list_all_iff)
  from nt ls have nT: "LStr ''team'' \<notin> set ls" "LStr ''tm'' \<notin> set ls"
    by (simp_all add: has_column_def)
  obtain df3 where e3: "extract_player_team_fpts L df = (df3, Inr out)"
    using e by (cases "extract_player_team_fpts L df") auto
  from e3 c obtain df2 where rp: "resolve_player df1 = Inr df2" and d3: "df3 = resolve_team L df2"
    by (auto simp: extract_player_team_fpts_def Let_def split: sum.splits option.splits)
  from extract_Inr [OF e3] obtain fc where f3: "find (has_column df3) fpts_columns = Some fc"
    and fcm: "fc \<in> set fpts_columns" and fch: "has_column df3 fc"
    and ro: "rows out = filter kept_row (map (coerced_row L df3 fc) (rows df3))" by auto
  from fcm have fcn: "fc \<noteq> ''player''" "fc \<noteq> ''team''"
    using fpts_columns_not_player_team by auto
  let ?ept = "extract_player_team L"
  from resolve_player_cases [OF ls rp] show ?thesis
  proof
    assume a: "LStr ''player'' \<in> set ls \<and> df2 = df1"
    then have ps: "player_source df1 = ''player''" by (simp add: player_source_def has_column_def ls)
    let ?ip = "index_of (LStr ''player'') ls"
    from a ls nT have d3': "df3 = \<lparr>columns = Flat (ls @ [LStr ''team'']),
      rows = map (\<lambda>r. r[?ip := fst (?ept (cell_at r ?ip))] @ [snd (?ept (cell_at r ?ip))]) (rows df1)\<rparr>"
      using resolve_team_split [of df2 ls L] d3 by simp
    have hc: "\<And>x. x \<in> set fpts_columns \<Longrightarrow> has_column df3 x = has_column df1 x"
      using fpts_columns_not_player_team by (auto simp: d3' ls has_column_def)
    have f1: "find (has_column df1) fpts_columns = Some fc"
      using f3 find_cong [OF refl hc, of fpts_columns] by simp
    from fch fcn have fcl: "LStr fc \<in> set ls" by (simp add: d3' has_column_def)
    have ipl: "?ip < length ls" using a index_of_less by fast
    have ifl: "index_of (LStr fc) ls < length ls" using fcl index_of_less by fast
    have ne: "index_of (LStr fc) ls \<noteq> ?ip" using index_of_neq [OF fcl, of "LStr ''player''"] fcn by simp
    have row: "\<And>r. r \<in> set (rows df) \<Longrightarrow>
       coerced_row L df3 fc (r[?ip := fst (?ept (cell_at r ?ip))] @ [snd (?ept (cell_at r ?ip))]) =
        [astype_str_strip L (fst (?ept (cell_at r (column_index df1 (player_source df1))))),
         astype_str_strip L (snd (?ept (cell_at r (column_index df1 (player_source df1))))),
         Num (to_numeric L (cell_at r (column_index df1 fc)))]"
    proof -
      fix r assume "r \<in> set (rows df)"
      then have l: "length r = length ls" by (rule rl)
      show "coerced_row L df3 fc (r[?ip := fst (?ept (cell_at r ?ip))] @ [snd (?ept (cell_at r ?ip))]) =
        [astype_str_strip L (fst (?ept (cell_at r (column_index df1 (player_source df1))))),
         astype_str_strip L (snd (?ept (cell_at r (column_index df1 (player_source df1))))),
         Num (to_numeric L (cell_at r (column_index df1 fc)))]"
        using l ipl ifl ne a fcl nT
        by (simp add: coerced_row_def d3' ls ps column_index_def index_of_append index_of_new
            cell_at_def nth_append)
    qed
    have "map (coerced_row L df3 fc) (rows df3) = map (\<lambda>r.
        [astype_str_strip L (fst (?ept (cell_at r (column_index df1 (player_source df1))))),
         astype_str_strip L (snd (?ept (cell_at r (column_index df1 (player_source df1))))),
         Num (to_numeric L (cell_at r (column_index df1 fc)))]) (rows df)"
      using row by (simp add: d3' rs comp_def)
    with ro f1 show ?thesis by auto
  next
    assume b: "LStr ''player'' \<notin> set ls \<and> LStr ''name'' \<in> set ls \<and>
          df2 = \<lparr>columns = Flat (ls @ [LStr ''player'']),
                 rows = map (\<lambda>r. r @ [cell_at r (index_of (LStr ''name'') ls)]) (rows df1)\<rparr>"
    then have ps: "player_source df1 = ''name''" by (simp add: player_source_def has_column_def ls)
    let ?in = "index_of (LStr ''name'') ls"
    let ?ls2 = "ls @ [LStr ''player'']"
    have ip2: "index_of (LStr ''player'') ?ls2 = length ls" using b index_of_new by fast
    from b nT have d3': "df3 = \<lparr>columns = Flat (?ls2 @ [LStr ''team'']),
      rows = map (\<lambda>r. r[length ls := fst (?ept (cell_at r (length ls)))] @ [snd (?ept (cell_at r (length ls)))])
               (map (\<lambda>r. r @ [cell_at r ?in]) (rows df1))\<rparr>"
      using resolve_team_split [of df2 ?ls2 L] d3 ip2 by simp
    have hc: "\<And>x. x \<in> set fpts_columns \<Longrightarrow> has_column df3 x = has_column df1 x"
      using fpts_columns_not_player_team by (auto simp: d3' ls has_column_def)
    have f1: "find (has_column df1) fpts_columns = Some fc"
      using f3 find_cong [OF refl hc, of fpts_columns] by simp
    from fch fcn have fcl: "LStr fc \<in> set ls" by (simp add: d3' has_column_def)
    have ifl: "index_of (LStr fc) ls < length ls" using fcl index_of_less by fast
    have inl: "?in < length ls" using b index_of_less by fast
    have row: "\<And>r. r \<in> set (rows df) \<Longrightarrow>
       coerced_row L df3 fc ((r @ [cell_at r ?in])[length ls := fst (?ept (cell_at (r @ [cell_at r ?in]) (length ls)))]
            @ [snd (?ept (cell_at (r @ [cell_at r ?in]) (length ls)))]) =
        [astype_str_strip L (fst (?ept (cell_at r (column_index df1 (player_source df1))))),
         astype_str_strip L (snd (?ept (cell_at r (column_index df1 (player_source df1))))),
         Num (to_numeric L (cell_at r (column_index df1 fc)))]"
    proof -
      fix r assume "r \<in> set (rows df)"
      then have l: "length r = length ls" by (rule rl)
      show "coerced_row L df3 fc ((r @ [cell_at r ?in])[length ls := fst (?ept (cell_at (r @ [cell_at r ?in]) (length ls)))]
            @ [snd (?ept (cell_at (r @ [cell_at r ?in]) (length ls)))]) =
        [astype_str_strip L (fst (?ept (cell_at r (column_index df1 (player_source df1))))),
         astype_str_strip L (snd (?ept (cell_at r (column_index df1 (player_source df1))))),
         Num (to_numeric L (cell_at r (column_index df1 fc)))]"
        using l ifl inl b fcl nT index_of_new2 [of "LStr ''player''" ls "LStr ''team''"]
        by (simp add: coerced_row_def d3' ls ps column_index_def index_of_append
            cell_at_def nth_append)
    qed
    have "map (coerced_row L df3 fc) (rows df3) = map (\<lambda>r.
        [astype_str_strip L (fst (?ept (cell_at r (column_index df1 (player_source df1))))),
         astype_str_strip L (snd (?ept (cell_at r (column_index df1 (player_source df1))))),
         Num (to_numeric L (cell_at r (column_index df1 fc)))]) (rows df)"
      using row by (simp add: d3' rs comp_def)
    with ro f1 show ?thesis by auto
  qed
qed

lemma split_from_spaces: "list_all isspace ws \<Longrightarrow> split_from [] ws = []"
  by (induction ws) auto

lemma split_from_trailing:
  "list_all isspace ws \<Longrightarrow> split_from cur (s @ ws) = split_from cur s"
proof (induction s arbitrary: cur)
  case Nil
  then show ?case by (cases ws) (auto simp: split_from_spaces)
next
  case (Cons c cs)
  then show ?case by simp
qed

lemma split_from_leading: "split_from [] (dropWhile isspace s) = split_from [] s"
  by (induction s) auto

lemma strip_decompose:
  "dropWhile isspace s = strip s @ rev (takeWhile isspace (rev (dropWhile isspace s)))"
  unfolding strip_def
  by (metis rev_append rev_rev_ident takeWhile_dropWhile_id)

lemma split_strip: "split (strip s) = split s"
proof -
  have sp: "list_all isspace (rev (takeWhile isspace (rev (dropWhile isspace s))))"
    by (auto simp: list_all_iff dest: set_takeWhileD)
  have "split s = split_from [] (dropWhile isspace s)"
    by (simp add: split_def split_from_leading)
  also have "\<dots> = split_from [] (strip s @ rev (takeWhile isspace (rev (dropWhile isspace s))))"
    using strip_decompose [of s] by simp
  also have "\<dots> = split_from [] (strip s)"
    using split_from_trailing [OF sp] by simp
  finally show ?thesis by (simp add: split_def)
qed

lemma join_ends:
  "ts \<noteq> [] \<Longrightarrow> list_all (\<lambda>t. t \<noteq> []) ts \<Longrightarrow>
   join sep ts \<noteq> [] \<and> hd (join sep ts) = hd (hd ts) \<and> last (join sep ts) = last (last ts)"
  by (induction sep ts rule: join.induct) auto

lemma strip_join:
  assumes "ts \<noteq> []" and "\<And>t. t \<in> set ts \<Longrightarrow> t \<noteq> [] \<and> \<not> list_ex isspace t"
  shows "strip (join sep ts) = join sep ts"
proof -
  from assms have ne: "list_all (\<lambda>t. t \<noteq> []) ts" by (simp add: list_all_iff)
  from assms have "hd ts \<in> set ts" by simp
  with assms(2) have "hd ts \<noteq> []" "\<not> list_ex isspace (hd ts)" by auto
  then have h: "\<not> isspace (hd (hd ts))" by (auto simp: list_ex_iff)
  from assms have "last ts \<in> set ts" by simp
  with assms(2) have "last ts \<noteq> []" "\<not> list_ex isspace (last ts)" by auto
  then have l: "\<not> isspace (last (last ts))" by (auto simp: list_ex_iff)
  from join_ends [OF assms(1) ne, of sep] h l show ?thesis
    by (intro strip_ends) simp_all
qed

lemma strip_NA: "strip ''<NA>'' = ''<NA>''"
  by code_simp

lemma coerced_split_rule:
  "astype_str_strip L (fst (extract_player_team L c)) = Str (fst (split_rule (py_str L c))) \<and>
   astype_str_strip L (snd (extract_player_team L c)) = Str (snd (split_rule (py_str L c)))"
proof (cases "2 \<le> length (split (py_str L c)) \<and> length (last (split (py_str L c))) \<le> 4 \<and>
              isupper (last (split (py_str L c)))")
  case True
  let ?ts = "split (py_str L c)"
  from True have ne: "?ts \<noteq> []" "butlast ?ts \<noteq> []" by (cases ?ts; cases "tl ?ts"; auto)+
  have tok: "\<And>t. t \<in> set ?ts \<Longrightarrow> t \<noteq> [] \<and> \<not> list_ex isspace t" by (rule split_tokens)
  then have tokb: "\<And>t. t \<in> set (butlast ?ts) \<Longrightarrow> t \<noteq> [] \<and> \<not> list_ex isspace t"
    using in_set_butlastD by fast
  have 1: "strip (join '' '' (butlast ?ts)) = join '' '' (butlast ?ts)"
    using strip_join [OF ne(2) tokb] by simp
  have "last ?ts \<in> set ?ts" using ne(1) by simp
  then have 2: "strip (last ?ts) = last ?ts" using tok strip_token by blast
  from True 1 2 show ?thesis
    by (simp add: extract_player_team_def split_rule_def split_strip astype_str_strip_def Let_def)
next
  case False
  then show ?thesis
    by (auto simp: extract_player_team_def split_rule_def split_strip astype_str_strip_def Let_def
        strip_NA)
qed

section \<open>Team splitting (C2, C10)\<close>

text \<open>The rows of the result when the table has no team column, through the rule in
  the words of the specification.\<close>

lemma split_rule_rows:
  assumes "wf_frame df" and "clean_columns df = Inr df1"
    and "\<not> has_column df1 ''team''" and "\<not> has_column df1 ''tm''"
    and "snd (extract_player_team_fpts L df) = Inr out"
  shows "\<exists>fc. find (has_column df1) fpts_columns = Some fc \<and>
     rows out = filter kept_row (map (\<lambda>r.
        [Str (fst (split_rule (py_str L (cell_at r (column_index df1 (player_source df1)))))),
         Str (snd (split_rule (py_str L (cell_at r (column_index df1 (player_source df1)))))),
         Num (to_numeric L (cell_at r (column_index df1 fc)))]) (rows df))"
  using heuristic_rows [OF assms] by (simp add: coerced_split_rule)

lemma split_rule_team_nonempty: "snd (split_rule s) \<noteq> []"
proof (cases "2 \<le> length (split s) \<and> length (last (split s)) \<le> 4 \<and> isupper (last (split s))")
  case True
  then have "split s \<noteq> []" by auto
  then have "last (split s) \<in> set (split s)" by simp
  then have "last (split s) \<noteq> []" using split_tokens by blast
  with True show ?thesis by (simp add: split_rule_def Let_def)
next
  case False
  then show ?thesis by (auto simp: split_rule_def Let_def)
qed

text \<open>
  C2, as the code has it. For a well-formed table whose cleaned columns have neither
  \<open>team\<close> nor \<open>tm\<close> and on which the extractor succeeds, the rows of the result are the
  rows of the table, each with the player and the team that the splitting rule gives
  for its player cell and with its points coerced to a number, less the rows dropped
  for an empty player or missing points. The rule gives \<open>Lamar Jackson\<close> and \<open>BAL\<close> for
  \<open>Lamar Jackson BAL\<close>. (The extractor succeeds only on a table that also has a points
  column: a table with a player column alone raises the missing-column error.)
\<close>

theorem team_split_rule:
  assumes "wf_frame df" and "clean_columns df = Inr df1"
    and "\<not> has_column df1 ''team''" and "\<not> has_column df1 ''tm''"
    and "snd (extract_player_team_fpts L df) = Inr out"
  shows "(\<exists>fc. find (has_column df1) fpts_columns = Some fc \<and>
     rows out = filter kept_row (map (\<lambda>r.
        [Str (fst (split_rule (py_str L (cell_at r (column_index df1 (player_source df1)))))),
         Str (snd (split_rule (py_str L (cell_at r (column_index df1 (player_source df1)))))),
         Num (to_numeric L (cell_at r (column_index df1 fc)))]) (rows df))) \<and>
     split_rule ''Lamar Jackson BAL'' = (''Lamar Jackson'', ''BAL'')"
proof -
  have "split_rule ''Lamar Jackson BAL'' = (''Lamar Jackson'', ''BAL'')"
    by code_simp
  with split_rule_rows [OF assms] show ?thesis by simp
qed

text \<open>The theorem at a table with the columns \<open>Player\<close> and \<open>FPTS\<close>: the first player
  cell ends in a team code, the second ends in a token that is upper-case too and is
  taken for one.\<close>

theorem team_split_rule_witness:
  "wf_frame lamar_table \<and>
   clean_columns lamar_table =
     Inr \<lparr>columns = Flat [LStr ''player'', LStr ''fpts''], rows = rows lamar_table\<rparr> \<and>
   snd (extract_player_team_fpts example_lib lamar_table) =
     Inr \<lparr>columns = Flat [LStr ''player'', LStr ''team'', LStr ''fpts''],
          rows = [[Str ''Lamar Jackson'', Str ''BAL'', Num (Finite 340)],
                  [Str ''Patrick Mahomes'', Str ''II'', Num (Finite 255)]]\<rparr> \<and>
   split_rule ''Lamar Jackson BAL'' = (''Lamar Jackson'', ''BAL'')"
proof -
  let ?df1 = "\<lparr>columns = Flat [LStr ''player'', LStr ''fpts''], rows = rows lamar_table\<rparr>"
  let ?out = "\<lparr>columns = Flat [LStr ''player'', LStr ''team'', LStr ''fpts''],
          rows = [[Str ''Lamar Jackson'', Str ''BAL'', Num (Finite 340)],
                  [Str ''Patrick Mahomes'', Str ''II'', Num (Finite 255)]]\<rparr>"
  have 1: "wf_frame lamar_table" by code_simp
  have 2: "clean_columns lamar_table = Inr ?df1" by code_simp
  have 3: "\<not> has_column ?df1 ''team''" by code_simp
  have 4: "\<not> has_column ?df1 ''tm''" by code_simp
  have 5: "snd (extract_player_team_fpts example_lib lamar_table) = Inr ?out" by code_simp
  from team_split_rule [OF 1 2 3 4 5] 1 2 5 show ?thesis by blast
qed

text \<open>The particular case of the claim, read to the letter, fails: on a table whose only
  column is \<open>player\<close> the extractor raises, for want of a points column.\<close>

theorem sole_player_column_raises:
  "snd (extract_player_team_fpts example_lib lamar_only_table) =
     Inl (Exn ValueError ''Could not find 'FPTS' (season total) in downloaded table.'')"
  by code_simp

text \<open>
  C10, as the code has it. The claim holds on the path the heuristic takes: for a
  well-formed table whose cleaned columns have neither \<open>team\<close> nor \<open>tm\<close>, every row of
  the result has a non-empty team string, and the unknown team \<^verbatim>\<open>pd.NA\<close> is coerced to
  the text \<open><NA>\<close>. It does not hold when the table has a team column, whose cells are
  only coerced and trimmed.
\<close>

theorem split_team_nonempty:
  assumes "wf_frame df" and "clean_columns df = Inr df1"
    and "\<not> has_column df1 ''team''" and "\<not> has_column df1 ''tm''"
    and "snd (extract_player_team_fpts L df) = Inr out"
  shows "list_all (\<lambda>r. \<exists>t. cell_at r 1 = Str t \<and> t \<noteq> []) (rows out) \<and>
         astype_str_strip L NA = Str ''<NA>''"
proof -
  from split_rule_rows [OF assms] obtain fc where
    r: "rows out = filter kept_row (map (\<lambda>r.
        [Str (fst (split_rule (py_str L (cell_at r (column_index df1 (player_source df1)))))),
         Str (snd (split_rule (py_str L (cell_at r (column_index df1 (player_source df1)))))),
         Num (to_numeric L (cell_at r (column_index df1 fc)))]) (rows df))" by blast
  have "list_all (\<lambda>r. \<exists>t. cell_at r 1 = Str t \<and> t \<noteq> []) (rows out)"
    unfolding r list_all_iff by (auto simp: cell_at_def split_rule_team_nonempty)
  then show ?thesis by (simp add: astype_str_strip_def strip_NA)
qed

text \<open>The theorem at the table of the previous example, to which a row without a team
  code is added by the name \<open>Joe\<close>.\<close>

theorem split_team_nonempty_witness:
  "wf_frame (lamar_table\<lparr>rows := [Str ''Joe'', Num (Finite 10)] # rows lamar_table\<rparr>) \<and>
   snd (extract_player_team_fpts example_lib
          (lamar_table\<lparr>rows := [Str ''Joe'', Num (Finite 10)] # rows lamar_table\<rparr>)) =
     Inr \<lparr>columns = Flat [LStr ''player'', LStr ''team'', LStr ''fpts''],
          rows = [[Str ''Joe'', Str ''<NA>'', Num (Finite 10)],
                  [Str ''Lamar Jackson'', Str ''BAL'', Num (Finite 340)],
                  [Str ''Patrick Mahomes'', Str ''II'', Num (Finite 255)]]\<rparr> \<and>
   list_all (\<lambda>r. \<exists>t. cell_at r 1 = Str t \<and> t \<noteq> [])
     [[Str ''Joe'', Str ''<NA>'', Num (Finite 10)],
      [Str ''Lamar Jackson'', Str ''BAL'', Num (Finite 340)],
      [Str ''Patrick Mahomes'', Str ''II'', Num (Finite 255)]]"
proof -
  let ?df = "lamar_table\<lparr>rows := [Str ''Joe'', Num (Finite 10)] # rows lamar_table\<rparr>"
  let ?df1 = "\<lparr>columns = Flat [LStr ''player'', LStr ''fpts''], rows = rows ?df\<rparr>"
  let ?out = "\<lparr>columns = Flat [LStr ''player'', LStr ''team'', LStr ''fpts''],
          rows = [[Str ''Joe'', Str ''<NA>'', Num (Finite 10)],
                  [Str ''Lamar Jackson'', Str ''BAL'', Num (Finite 340)],
                  [Str ''Patrick Mahomes'', Str ''II'', Num (Finite 255)]]\<rparr>"
  have 1: "wf_frame ?df" by code_simp
  have 2: "clean_columns ?df = Inr ?df1" by code_simp
  have 3: "\<not> has_column ?df1 ''team''" by code_simp
  have 4: "\<not> has_column ?df1 ''tm''" by code_simp
  have 5: "snd (extract_player_team_fpts example_lib ?df) = Inr ?out" by code_simp
  from split_team_nonempty [OF 1 2 3 4 5] 1 5 show ?thesis by simp
qed

text \<open>The claim as stated fails: a team cell of two spaces, as a CSV export can hold,
  is trimmed to the empty string and the row is retained.\<close>

theorem blank_team_retained:
  "snd (extract_player_team_fpts example_lib blank_team_table) =
     Inr \<lparr>columns = Flat [LStr ''player'', LStr ''team'', LStr ''fpts''],
          rows = [[Str ''Joe X'', Str [], Num (Finite 300)]]\<rparr>"
  by code_simp

section \<open>The effect of the extractor on its argument (C8)\<close>














section \<open>Retries (C4)\<close>

lemma requests_get_slept: "slept (snd (requests_get w url)) = slept w"
  by (simp add: requests_get_def)

lemma try_fetch_csv_slept: "slept (snd (try_fetch_csv L url w)) = slept w"
  by (auto simp: try_fetch_csv_def requests_get_def split: sum.splits prod.splits)

lemma fetch_html_table_slept: "slept (snd (fetch_html_table L url w)) = slept w"
  by (auto simp: fetch_html_table_def requests_get_def split: sum.splits prod.splits exn.splits exn_kind.splits)

lemma attempt_body_slept: "slept (snd (attempt_body L url pos_label weeks w)) = slept w"
proof -
  obtain r w1 where t: "try_fetch_csv L url w = (r, w1)" by (cases "try_fetch_csv L url w")
  then have s1: "slept w1 = slept w" using try_fetch_csv_slept [of L url w] by simp
  obtain r2 w2 where h: "fetch_html_table L url w1 = (r2, w2)" by (cases "fetch_html_table L url w1")
  then have s2: "slept w2 = slept w1" using fetch_html_table_slept [of L url w1] by simp
  show ?thesis using t h s1 s2
    by (auto simp: attempt_body_def split: sum.splits option.splits prod.splits)
qed

lemma slept_state_before:
  "slept (state_before L url pos_label weeks backoff w k) = slept w @ map (\<lambda>j. backoff ^ j) [0..<k]"
  by (induction k) (simp_all add: Let_def attempt_body_slept)

lemma loop_unfold_fail:
  assumes "0 \<le> backoff" and "int a < retries"
    and "attempt_body L url pos_label weeks w = (Inl e, w1)"
  shows "fetch_position_from L url pos_label weeks retries backoff le (int a) w =
         fetch_position_from L url pos_label weeks retries backoff (Some e) (int (Suc a))
           (w1\<lparr>slept := slept w1 @ [backoff ^ a]\<rparr>)"
proof -
  from assms(1) have "\<not> backoff ^ a < 0" by (simp add: not_less)
  then have "sleep (backoff ^ a) w1 = Inr (w1\<lparr>slept := slept w1 @ [backoff ^ a]\<rparr>)"
    by (simp add: sleep_def)
  with assms(2,3) show ?thesis
    by (subst fetch_position_from.simps) (simp add: add.commute)
qed

lemma loop_success:
  assumes "0 \<le> backoff"
  shows "a + d = k \<Longrightarrow> int k \<le> retries \<Longrightarrow>
    (\<forall>j. a \<le> j \<and> j < k \<longrightarrow> isl (outcome L url pos_label weeks backoff w j)) \<Longrightarrow>
    outcome L url pos_label weeks backoff w k = Inr res \<Longrightarrow>
    fetch_position_from L url pos_label weeks retries backoff le (int a)
      (state_before L url pos_label weeks backoff w a) =
    (Inr res, state_after L url pos_label weeks backoff w k)"
proof (induction d arbitrary: a le)
  case 0
  then have ak: "a = k" by simp
  obtain r w1 where ab: "attempt_body L url pos_label weeks (state_before L url pos_label weeks backoff w k) = (r, w1)"
    by (cases "attempt_body L url pos_label weeks (state_before L url pos_label weeks backoff w k)")
  with 0 have "r = Inr res" by (simp add: outcome_def)
  with ab 0(2) show ?case unfolding ak
    by (subst fetch_position_from.simps) (simp add: state_after_def)
next
  case (Suc d)
  then have lt: "a < k" by simp
  with Suc.prems have "isl (outcome L url pos_label weeks backoff w a)" by simp
  then obtain e w1 where ab: "attempt_body L url pos_label weeks (state_before L url pos_label weeks backoff w a) = (Inl e, w1)"
    by (cases "attempt_body L url pos_label weeks (state_before L url pos_label weeks backoff w a)")
       (auto simp: outcome_def isl_def)
  then have sb: "state_before L url pos_label weeks backoff w (Suc a) = w1\<lparr>slept := slept w1 @ [backoff ^ a]\<rparr>"
    by (simp add: Let_def)
  from lt Suc.prems(2) have "int a < retries" by simp
  from loop_unfold_fail [OF assms this ab, of le]
  have "fetch_position_from L url pos_label weeks retries backoff le (int a)
      (state_before L url pos_label weeks backoff w a) =
     fetch_position_from L url pos_label weeks retries backoff (Some e) (int (Suc a))
      (state_before L url pos_label weeks backoff w (Suc a))"
    unfolding sb .
  also have "\<dots> = (Inr res, state_after L url pos_label weeks backoff w k)"
    using Suc.IH [of "Suc a" "Some e"] Suc.prems by simp
  finally show ?case .
qed

lemma loop_failure:
  assumes "0 \<le> backoff" and "0 \<le> retries"
  shows "a + d = nat retries \<Longrightarrow>
    (\<forall>j. a \<le> j \<and> j \<le> nat retries \<longrightarrow> isl (outcome L url pos_label weeks backoff w j)) \<Longrightarrow>
    fetch_position_from L url pos_label weeks retries backoff le (int a)
      (state_before L url pos_label weeks backoff w a) =
    (Inl (wrapped_failure pos_label url (projl (outcome L url pos_label weeks backoff w (nat retries)))),
     state_after L url pos_label weeks backoff w (nat retries))"
proof (induction d arbitrary: a le)
  case 0
  then have ak: "a = nat retries" by simp
  with assms(2) have ia: "int a = retries" by simp
  from 0 have "isl (outcome L url pos_label weeks backoff w a)" by simp
  then obtain e w1 where ab: "attempt_body L url pos_label weeks (state_before L url pos_label weeks backoff w a) = (Inl e, w1)"
    by (cases "attempt_body L url pos_label weeks (state_before L url pos_label weeks backoff w a)")
       (auto simp: outcome_def isl_def)
  then have "projl (outcome L url pos_label weeks backoff w a) = e" "state_after L url pos_label weeks backoff w a = w1"
    by (simp_all add: outcome_def state_after_def)
  with ab show ?case unfolding ak [symmetric] ia
    by (subst fetch_position_from.simps) (simp add: wrapped_failure_def ia)
next
  case (Suc d)
  then have lt: "a < nat retries" by simp
  with Suc.prems have "isl (outcome L url pos_label weeks backoff w a)" by simp
  then obtain e w1 where ab: "attempt_body L url pos_label weeks (state_before L url pos_label weeks backoff w a) = (Inl e, w1)"
    by (cases "attempt_body L url pos_label weeks (state_before L url pos_label weeks backoff w a)")
       (auto simp: outcome_def isl_def)
  then have sb: "state_before L url pos_label weeks backoff w (Suc a) = w1\<lparr>slept := slept w1 @ [backoff ^ a]\<rparr>"
    by (simp add: Let_def)
  from lt have "int a < retries" by simp
  from loop_unfold_fail [OF assms(1) this ab, of le]
  have "fetch_position_from L url pos_label weeks retries backoff le (int a)
      (state_before L url pos_label weeks backoff w a) =
     fetch_position_from L url pos_label weeks retries backoff (Some e) (int (Suc a))
      (state_before L url pos_label weeks backoff w (Suc a))"
    unfolding sb .
  also have "\<dots> = (Inl (wrapped_failure pos_label url (projl (outcome L url pos_label weeks backoff w (nat retries)))),
     state_after L url pos_label weeks backoff w (nat retries))"
    using Suc.IH [of "Suc a" "Some e"] Suc.prems by simp
  finally show ?case .
qed

text \<open>
  C4. With \<open>retries\<close> and \<open>backoff\<close> not negative, whatever the attempts return or
  raise: if attempt \<open>k\<close>, among the first \<open>retries + 1\<close>, is the first to succeed,
  \<open>fetch_position\<close> returns its result (so a failure twice and then a success gives the
  success); if all \<open>retries + 1\<close> attempts raise, it raises one \<^verbatim>\<open>RuntimeError\<close> whose
  text names the position and the URL and ends with the text of the last exception;
  and when attempt \<open>k\<close> ends, the sleeps made since the call are \<open>backoff ^ 0\<close>, ...,
  \<open>backoff ^ (k - 1)\<close>, one after each failed attempt before it.
\<close>

theorem retry_until_success_or_exhaustion:
  assumes "0 \<le> retries" and "0 \<le> backoff"
  shows "(\<forall>k res. int k \<le> retries \<and>
            (\<forall>j<k. isl (outcome L url pos_label weeks backoff w j)) \<and>
            outcome L url pos_label weeks backoff w k = Inr res \<longrightarrow>
            fetch_position L url pos_label weeks retries backoff w =
              (Inr res, state_after L url pos_label weeks backoff w k)) \<and>
         ((\<forall>j. int j \<le> retries \<longrightarrow> isl (outcome L url pos_label weeks backoff w j)) \<longrightarrow>
            fetch_position L url pos_label weeks retries backoff w =
              (Inl (Exn RuntimeError
                 (''Failed to fetch '' @ pos_label @ '' from '' @ url @ '': '' @
                  exn_str (projl (outcome L url pos_label weeks backoff w (nat retries))))),
               state_after L url pos_label weeks backoff w (nat retries))) \<and>
         (\<forall>k. slept (state_after L url pos_label weeks backoff w k) =
               slept w @ map (\<lambda>j. backoff ^ j) [0..<k])"
proof (intro conjI allI impI)
  fix k res
  assume a: "int k \<le> retries \<and>
            (\<forall>j<k. isl (outcome L url pos_label weeks backoff w j)) \<and>
            outcome L url pos_label weeks backoff w k = Inr res"
  from loop_success [OF assms(2), of 0 k k retries L url pos_label weeks w res None] a
  show "fetch_position L url pos_label weeks retries backoff w =
              (Inr res, state_after L url pos_label weeks backoff w k)"
    by (simp add: fetch_position_def)
next
  assume a: "\<forall>j. int j \<le> retries \<longrightarrow> isl (outcome L url pos_label weeks backoff w j)"
  have "\<forall>j. 0 \<le> j \<and> j \<le> nat retries \<longrightarrow> isl (outcome L url pos_label weeks backoff w j)"
    using a assms(1) by auto
  from loop_failure [OF assms(2,1), of 0 "nat retries" L url pos_label weeks w None] this
  show "fetch_position L url pos_label weeks retries backoff w =
              (Inl (Exn RuntimeError
                 (''Failed to fetch '' @ pos_label @ '' from '' @ url @ '': '' @
                  exn_str (projl (outcome L url pos_label weeks backoff w (nat retries))))),
               state_after L url pos_label weeks backoff w (nat retries))"
    by (simp add: fetch_position_def wrapped_failure_def)
next
  fix k
  show "slept (state_after L url pos_label weeks backoff w k) =
               slept w @ map (\<lambda>j. backoff ^ j) [0..<k]"
    by (simp add: state_after_def attempt_body_slept slept_state_before)
qed

text \<open>The theorem with the default 2 retries and backoff 1.5: on a network whose first
  two requests time out, the third attempt's table is returned after sleeps of 1 and
  1.5 seconds; on a network where every request times out, the wrapped failure is
  raised.\<close>

theorem retry_until_success_or_exhaustion_witness:
  "fetch_position example_lib qb_url ''QB'' 17 2 (3 / 2) flaky_world =
     (Inr qb_rates, state_after example_lib qb_url ''QB'' 17 (3 / 2) flaky_world 2) \<and>
   slept (state_after example_lib qb_url ''QB'' 17 (3 / 2) flaky_world 2) = [1, 3 / 2] \<and>
   fst (fetch_position example_lib qb_url ''QB'' 17 2 (3 / 2) dead_world) =
     Inl (Exn RuntimeError
       (''Failed to fetch QB from https://www.fantasypros.com/nfl/projections/qb.php?week=draft: ''
        @ ''Connection timed out''))"
proof -
  have r: "(0::int) \<le> 2" and b: "(0::rat) \<le> 3 / 2" by simp_all
  note T = retry_until_success_or_exhaustion [OF r b, of example_lib qb_url "''QB''" 17]
  have f0: "isl (outcome example_lib qb_url ''QB'' 17 (3 / 2) flaky_world 0)" by code_simp
  have f1: "isl (outcome example_lib qb_url ''QB'' 17 (3 / 2) flaky_world 1)" by code_simp
  have f2: "outcome example_lib qb_url ''QB'' 17 (3 / 2) flaky_world 2 = Inr qb_rates" by code_simp
  have fa: "\<forall>j<2. isl (outcome example_lib qb_url ''QB'' 17 (3 / 2) flaky_world j)"
    using f0 f1 less_2_cases by fastforce
  from T [of flaky_world] fa f2
  have 1: "fetch_position example_lib qb_url ''QB'' 17 2 (3 / 2) flaky_world =
     (Inr qb_rates, state_after example_lib qb_url ''QB'' 17 (3 / 2) flaky_world 2)"
    by simp
  have u: "map (\<lambda>j. (3 / 2 :: rat) ^ j) [0..<2] = [1, 3 / 2]" by code_simp
  have sw: "slept flaky_world = []" by (simp add: flaky_world_def)
  from T [of flaky_world] have "slept (state_after example_lib qb_url ''QB'' 17 (3 / 2) flaky_world 2) =
      slept flaky_world @ map (\<lambda>j. (3 / 2 :: rat) ^ j) [0..<2]" by blast
  then have 2: "slept (state_after example_lib qb_url ''QB'' 17 (3 / 2) flaky_world 2) = [1, 3 / 2]"
    unfolding u sw by simp
  have d0: "isl (outcome example_lib qb_url ''QB'' 17 (3 / 2) dead_world 0)" by code_simp
  have d1: "isl (outcome example_lib qb_url ''QB'' 17 (3 / 2) dead_world 1)" by code_simp
  have d2: "isl (outcome example_lib qb_url ''QB'' 17 (3 / 2) dead_world 2)" by code_simp
  have "\<And>j::nat. int j \<le> 2 \<Longrightarrow> j = 0 \<or> j = 1 \<or> j = 2" by auto
  with d0 d1 d2 have da: "\<forall>j. int j \<le> 2 \<longrightarrow>
      isl (outcome example_lib qb_url ''QB'' 17 (3 / 2) dead_world j)" by metis
  have p: "exn_str (projl (outcome example_lib qb_url ''QB'' 17 (3 / 2) dead_world 2)) =
      ''Connection timed out''" by code_simp
  from T [of dead_world] da
  have "fst (fetch_position example_lib qb_url ''QB'' 17 2 (3 / 2) dead_world) =
     Inl (Exn RuntimeError (''Failed to fetch '' @ ''QB'' @ '' from '' @ qb_url @ '': '' @
        exn_str (projl (outcome example_lib qb_url ''QB'' 17 (3 / 2) dead_world (nat 2)))))"
    by simp
  then have 3: "fst (fetch_position example_lib qb_url ''QB'' 17 2 (3 / 2) dead_world) =
     Inl (Exn RuntimeError
       (''Failed to fetch QB from https://www.fantasypros.com/nfl/projections/qb.php?week=draft: ''
        @ ''Connection timed out''))"
    using p by (simp add: qb_url_def)
  from 1 2 3 show ?thesis by simp
qed

section \<open>The aggregate table (C7)\<close>

lemma fetch_position_from_Inr:
  "fetch_position_from L url pos_label weeks retries backoff le a w = (Inr res, w') \<Longrightarrow>
   \<exists>w0. attempt_body L url pos_label weeks w0 = (Inr res, w')"
proof (induction L url pos_label weeks retries backoff le a w rule: fetch_position_from.induct)
  case (1 L url pos_label weeks retries backoff last_err attempt w)
  show ?case
  proof (cases "attempt < retries + 1")
    case False
    with "1.prems" show ?thesis
      by (subst (asm) fetch_position_from.simps) (auto split: option.splits)
  next
    case True
    obtain r w1 where ab: "attempt_body L url pos_label weeks w = (r, w1)"
      by (cases "attempt_body L url pos_label weeks w")
    show ?thesis
    proof (cases r)
      case (Inr res')
      with ab True "1.prems" have "res' = res \<and> w1 = w'"
        by (subst (asm) fetch_position_from.simps) simp
      with ab Inr show ?thesis by blast
    next
      case (Inl e)
      show ?thesis
      proof (cases "attempt < retries")
        case False
        with ab Inl True "1.prems" show ?thesis
          by (subst (asm) fetch_position_from.simps) simp
      next
        case lt: True
        show ?thesis
        proof (cases "sleep (backoff ^ nat attempt) w1")
          case (Inl e')
          with ab \<open>r = Inl e\<close> True lt "1.prems" show ?thesis
            by (subst (asm) fetch_position_from.simps) simp
        next
          case (Inr w2)
          with ab \<open>r = Inl e\<close> True lt "1.prems"
          have "fetch_position_from L url pos_label weeks retries backoff (Some e) (attempt + 1) w2 = (Inr res, w')"
            by (subst (asm) fetch_position_from.simps) simp
          with "1.IH" [OF True ab [symmetric] _ lt Inr] \<open>r = Inl e\<close> show ?thesis by simp
        qed
      qed
    qed
  qed
qed

lemma attempt_body_Inr:
  assumes "attempt_body L url pos_label weeks w0 = (Inr res, w')"
  shows "\<exists>df. extract_and_convert L df weeks pos_label = Inr res"
  using assms
  by (auto simp: attempt_body_def split: sum.splits option.splits prod.splits if_splits)

lemma extract_and_convert_shape:
  assumes "extract_and_convert L df weeks pos_label = Inr res"
  shows "position_frame pos_label res"
proof -
  from assms obtain base where b: "snd (extract_player_team_fpts L df) = Inr base"
    and r: "res = convert_rate base weeks pos_label"
    by (auto simp: extract_and_convert_def split: sum.splits)
  from extract_base_shape [OF b]
  have "res = \<lparr>columns = Flat [LStr ''player'', LStr ''team'', LStr ''proj_pts'', LStr ''pos''],
      rows = map (rate_row weeks pos_label) (rows base)\<rparr>"
    using convert_rate_rows [of base weeks pos_label] r by simp
  then show ?thesis
    by (simp add: position_frame_def result_labels_def list_all_iff rate_row_def)
qed

lemma fetch_position_shape:
  assumes "fetch_position L url pos_label weeks retries backoff w = (Inr res, w')"
  shows "position_frame pos_label res"
proof -
  from assms obtain w0 where "attempt_body L url pos_label weeks w0 = (Inr res, w')"
    unfolding fetch_position_def using fetch_position_from_Inr by blast
  then obtain df where "extract_and_convert L df weeks pos_label = Inr res"
    using attempt_body_Inr by blast
  then show ?thesis by (rule extract_and_convert_shape)
qed

lemma fetch_all4:
  assumes "fetch_all L weeks [(u1, p1), (u2, p2), (u3, p3), (u4, p4)] w = (Inr frames, w')"
  shows "\<exists>f1 f2 f3 f4 w1 w2 w3. frames = [f1, f2, f3, f4] \<and>
     fetch_position L u1 p1 weeks 2 (3 / 2) w = (Inr f1, w1) \<and>
     fetch_position L u2 p2 weeks 2 (3 / 2) w1 = (Inr f2, w2) \<and>
     fetch_position L u3 p3 weeks 2 (3 / 2) w2 = (Inr f3, w3) \<and>
     fetch_position L u4 p4 weeks 2 (3 / 2) w3 = (Inr f4, w')"
  using assms by (auto split: sum.splits prod.splits)

lemma row4_identity:
  assumes "length r = 4" and "ls = result_labels"
  shows "map (\<lambda>l. if l \<in> set ls then cell_at r (index_of l ls) else Num NaN) result_labels = r"
proof -
  from assms obtain a b c d where "r = [a, b, c, d]"
    by (cases r; cases "tl r"; cases "tl (tl r)"; cases "tl (tl (tl r))") auto
  then show ?thesis unfolding assms(2) by (simp add: result_labels_def cell_at_def)
qed

lemma position_frame_rows:
  assumes "position_frame p f"
  shows "map (\<lambda>r. map (\<lambda>l. if l \<in> set (flat_labels (columns f))
                             then cell_at r (index_of l (flat_labels (columns f)))
                             else Num NaN) result_labels) (rows f) = rows f"
proof -
  from assms have c: "flat_labels (columns f) = result_labels"
    and l: "\<And>r. r \<in> set (rows f) \<Longrightarrow> length r = 4"
    by (auto simp: position_frame_def list_all_iff)
  show ?thesis using row4_identity [OF l c] by (rule map_idI)
qed

lemma concat_frames4:
  assumes "position_frame p1 f1" "position_frame p2 f2" "position_frame p3 f3" "position_frame p4 f4"
  shows "concat_frames [f1, f2, f3, f4] =
     Inr \<lparr>columns = Flat result_labels, rows = rows f1 @ rows f2 @ rows f3 @ rows f4\<rparr>"
proof -
  from assms have c: "columns f1 = Flat result_labels" "columns f2 = Flat result_labels"
    "columns f3 = Flat result_labels" "columns f4 = Flat result_labels"
    by (simp_all add: position_frame_def)
  have fo: "first_occurrences [] (concat (map (\<lambda>f. flat_labels (columns f)) [f1, f2, f3, f4])) = result_labels"
    by (simp add: c result_labels_def)
  show ?thesis
    unfolding concat_frames_def Let_def fo
    using assms by (simp add: position_frame_rows)
qed

lemma main_post:
  assumes "list_all (\<lambda>r. \<exists>a b n p. r = [a, b, Num n, Str p]) R"
    and "df_all = \<lparr>columns = Flat result_labels, rows = R\<rparr>"
  shows "(let df1 = filter_rows df_all
                      (map (\<lambda>c. c \<in> set (map Str expected_positions)) (getitem df_all ''pos''));
              df2 = select_columns df1 [''player'', ''team'', ''proj_pts'', ''pos''];
              df3 = setitem df2 ''proj_pts''
                      (map (\<lambda>c. Num (to_numeric L c)) (getitem df2 ''proj_pts''))
          in df3) =
         \<lparr>columns = Flat result_labels,
          rows = filter (\<lambda>r. cell_at r 3 \<in> set (map Str expected_positions)) R\<rparr>"
proof -
  let ?P = "\<lambda>r. cell_at r 3 \<in> set (map Str expected_positions)"
  define df1 where "df1 = filter_rows df_all
                      (map (\<lambda>c. c \<in> set (map Str expected_positions)) (getitem df_all ''pos''))"
  have g: "map (\<lambda>c. c \<in> set (map Str expected_positions)) (getitem df_all ''pos'') = map ?P R"
    by (simp add: assms(2) getitem_def column_index_def result_labels_def comp_def numeral_3_eq_3)
  have d1: "df1 = \<lparr>columns = Flat result_labels, rows = filter ?P R\<rparr>"
    unfolding df1_def g filter_rows_def by (simp add: assms(2) filter_zip_same)
  have form: "\<And>r. r \<in> set (filter ?P R) \<Longrightarrow> \<exists>a b n p. r = [a, b, Num n, Str p]"
    using assms(1) by (auto simp: list_all_iff)
  define df2 where "df2 = select_columns df1 [''player'', ''team'', ''proj_pts'', ''pos'']"
  have "\<And>r. r \<in> set (filter ?P R) \<Longrightarrow>
      map (\<lambda>c. cell_at r (column_index df1 c)) [''player'', ''team'', ''proj_pts'', ''pos''] = r"
  proof -
    fix r assume "r \<in> set (filter ?P R)"
    from form [OF this] obtain a b n p where "r = [a, b, Num n, Str p]" by blast
    then show "map (\<lambda>c. cell_at r (column_index df1 c)) [''player'', ''team'', ''proj_pts'', ''pos''] = r"
      by (simp add: d1 column_index_def result_labels_def cell_at_def)
  qed
  then have "map (\<lambda>r. map (\<lambda>c. cell_at r (column_index df1 c)) [''player'', ''team'', ''proj_pts'', ''pos''])
       (filter ?P R) = filter ?P R" by (rule map_idI)
  then have d2: "df2 = \<lparr>columns = Flat result_labels, rows = filter ?P R\<rparr>"
    by (simp add: df2_def select_columns_def d1 result_labels_def)
  define df3 where "df3 = setitem df2 ''proj_pts''
                      (map (\<lambda>c. Num (to_numeric L c)) (getitem df2 ''proj_pts''))"
  have "\<And>r. r \<in> set (filter ?P R) \<Longrightarrow> r[2 := Num (to_numeric L (cell_at r 2))] = r"
  proof -
    fix r assume "r \<in> set (filter ?P R)"
    from form [OF this] obtain a b n p where "r = [a, b, Num n, Str p]" by blast
    then show "r[2 := Num (to_numeric L (cell_at r 2))] = r"
      by (simp add: cell_at_def numeral_2_eq_2)
  qed
  then have i3: "map (\<lambda>r. r[2 := Num (to_numeric L (cell_at r 2))]) (filter ?P R) = filter ?P R"
    by (rule map_idI)
  have "df3 = df2\<lparr>rows := map (\<lambda>r. r[2 := Num (to_numeric L (cell_at r 2))]) (rows df2)\<rparr>"
    by (simp add: df3_def setitem_def getitem_def has_column_def column_index_def d2
        result_labels_def map2_same_left comp_def numeral_2_eq_2)
  then have d3: "df3 = \<lparr>columns = Flat result_labels, rows = filter ?P R\<rparr>"
    using i3 by (simp add: d2)
  show ?thesis using d3 by (simp add: df3_def df2_def df1_def Let_def)
qed

text \<open>
  C7. When \<open>main\<close> reaches its output table, the four positions were fetched one after
  the other in the order QB, RB, WR, TE of \<open>URLS\<close>, each result carrying its position
  label on every row; the output has exactly the columns \<open>player\<close>, \<open>team\<close>, \<open>proj_pts\<close>,
  \<open>pos\<close> in that order; its rows are the rows of the four results in that order, each
  result's rows in their own order, restricted to the rows whose \<open>pos\<close> is one of QB,
  RB, WR, TE, a restriction that removes nothing.
\<close>

theorem aggregate_is_concatenation:
  assumes "main L weeks w = (Inr T, w')"
  shows "\<exists>f1 f2 f3 f4.
     fetch_all L weeks URLS w = (Inr [f1, f2, f3, f4], w') \<and>
     map snd URLS = [''QB'', ''RB'', ''WR'', ''TE''] \<and>
     position_frame ''QB'' f1 \<and> position_frame ''RB'' f2 \<and>
     position_frame ''WR'' f3 \<and> position_frame ''TE'' f4 \<and>
     columns T = Flat [LStr ''player'', LStr ''team'', LStr ''proj_pts'', LStr ''pos''] \<and>
     rows T = filter (\<lambda>r. cell_at r 3 \<in> set (map Str expected_positions))
                (rows f1 @ rows f2 @ rows f3 @ rows f4) \<and>
     rows T = rows f1 @ rows f2 @ rows f3 @ rows f4"
proof -
  let ?P = "\<lambda>r. cell_at r 3 \<in> set (map Str expected_positions)"
  from assms obtain frames df_all where fa: "fetch_all L weeks URLS w = (Inr frames, w')"
    and cf: "concat_frames frames = Inr df_all"
    and T: "T = (let df1 = filter_rows df_all
                      (map (\<lambda>c. c \<in> set (map Str expected_positions)) (getitem df_all ''pos''));
              df2 = select_columns df1 [''player'', ''team'', ''proj_pts'', ''pos''];
              df3 = setitem df2 ''proj_pts''
                      (map (\<lambda>c. Num (to_numeric L c)) (getitem df2 ''proj_pts''))
          in df3)"
    by (auto simp: main_def Let_def split: sum.splits prod.splits)
  from fetch_all4 [OF fa [unfolded URLS_def]]
  obtain f1 f2 f3 f4 w1 w2 w3 u1 u2 u3 u4 where fr: "frames = [f1, f2, f3, f4]"
    and p: "fetch_position L u1 ''QB'' weeks 2 (3 / 2) w = (Inr f1, w1)"
      "fetch_position L u2 ''RB'' weeks 2 (3 / 2) w1 = (Inr f2, w2)"
      "fetch_position L u3 ''WR'' weeks 2 (3 / 2) w2 = (Inr f3, w3)"
      "fetch_position L u4 ''TE'' weeks 2 (3 / 2) w3 = (Inr f4, w')"
    by blast
  from p have s: "position_frame ''QB'' f1" "position_frame ''RB'' f2"
    "position_frame ''WR'' f3" "position_frame ''TE'' f4"
    by (auto dest: fetch_position_shape)
  let ?R = "rows f1 @ rows f2 @ rows f3 @ rows f4"
  from concat_frames4 [OF s] cf fr have da: "df_all = \<lparr>columns = Flat result_labels, rows = ?R\<rparr>"
    by simp
  from s have form: "list_all (\<lambda>r. \<exists>a b n p. r = [a, b, Num n, Str p]) ?R"
    by (auto simp: position_frame_def list_all_iff)
  from main_post [OF form da, of L] T
  have Teq: "T = \<lparr>columns = Flat result_labels, rows = filter ?P ?R\<rparr>" by simp
  from s have "\<forall>r \<in> set ?R. ?P r"
    by (auto simp: position_frame_def list_all_iff expected_positions_def cell_at_def)
  then have "filter ?P ?R = ?R" by (simp only: filter_True)
  with Teq fa fr s show ?thesis
    by (simp add: result_labels_def URLS_def)
qed

text \<open>The theorem with 17 games on a network that serves one player for each
  position.\<close>

theorem aggregate_is_concatenation_witness:
  "fst (main example_lib 17 season_world) = Inr season_output \<and>
   (\<exists>f1 f2 f3 f4. rows season_output = rows f1 @ rows f2 @ rows f3 @ rows f4 \<and>
      position_frame ''QB'' f1 \<and> position_frame ''RB'' f2 \<and>
      position_frame ''WR'' f3 \<and> position_frame ''TE'' f4)"
proof -
  have m: "fst (main example_lib 17 season_world) = Inr season_output" by code_simp
  then obtain w' where "main example_lib 17 season_world = (Inr season_output, w')"
    by (cases "main example_lib 17 season_world") auto
  from aggregate_is_concatenation [OF this] m show ?thesis by blast
qed

section \<open>The query builder (C5)\<close>















end
